theory Spec2Isabelle
  imports Main "HOL-Library.AList" "HOL-Library.Multiset" "HOL-Library.Sublist"
begin

section \<open>Python values and strings\<close>

text \<open>
  A Python \<open>str\<close> is a sequence of Unicode code points, here a list of integers;
  \<open>ascii\<close> turns a literal into such a list.

  A cell value comes from JSON. The program observes such a value only through
  \<open>is None\<close>, its truth value and \<open>str()\<close>; \<open>PObj t s\<close> stands for any other value
  (a float, an array, an object) with truth value \<open>t\<close> and string form \<open>s\<close>.
\<close>

type_synonym ustring = "int list"

definition ascii :: "string \<Rightarrow> ustring" where
  "ascii s = map (of_char :: char \<Rightarrow> int) s"

datatype pyval = PNone | PBool bool | PInt int | PStr ustring | PObj bool ustring

text \<open>An exception, as a value. The library's \<open>ValueError\<close> is kept without its message.\<close>

datatype error = RuntimeError ustring | KeyError ustring | ValueError

text \<open>The decimal digits of a number that is not negative, and \<open>str()\<close> of an integer.\<close>

function str_digits :: "int \<Rightarrow> ustring" where
  "str_digits i = (if i < 10 then [48 + i] else str_digits (i div 10) @ [48 + i mod 10])"
  by pat_completeness auto
termination
  by (relation "measure nat") auto

declare str_digits.simps [simp del]

definition str_int :: "int \<Rightarrow> ustring" where
  "str_int i = (if i < 0 then 45 # str_digits (- i) else str_digits i)"

fun py_str :: "pyval \<Rightarrow> ustring" where
  "py_str PNone = ascii ''None''"
| "py_str (PBool b) = (if b then ascii ''True'' else ascii ''False'')"
| "py_str (PInt i) = str_int i"
| "py_str (PStr s) = s"
| "py_str (PObj t s) = s"

fun truthy :: "pyval \<Rightarrow> bool" where
  "truthy PNone = False"
| "truthy (PBool b) = b"
| "truthy (PInt i) = (i \<noteq> 0)"
| "truthy (PStr s) = (s \<noteq> [])"
| "truthy (PObj t s) = t"

text \<open>Python's \<open>a or b\<close>: \<open>a\<close> when it is truthy, else \<open>b\<close>.\<close>

definition py_or :: "pyval \<Rightarrow> pyval \<Rightarrow> pyval" where
  "py_or a b = (if truthy a then a else b)"

text \<open>
  The code points that \<open>str.strip()\<close> removes, those for which \<open>str.isspace\<close> holds:
  the ASCII controls 9 to 13 and 28 to 31, the space, and the Unicode spaces and line
  separators U+0085, U+00A0, U+1680, U+2000 to U+200A, U+2028, U+2029, U+202F, U+205F
  and U+3000.
\<close>

definition is_space :: "int \<Rightarrow> bool" where
  "is_space c =
     ((9 \<le> c \<and> c \<le> 13) \<or> (28 \<le> c \<and> c \<le> 32) \<or> c = 0x85 \<or> c = 0xA0 \<or> c = 0x1680 \<or>
      (0x2000 \<le> c \<and> c \<le> 0x200A) \<or> c = 0x2028 \<or> c = 0x2029 \<or> c = 0x202F \<or>
      c = 0x205F \<or> c = 0x3000)"

definition lstrip :: "ustring \<Rightarrow> ustring" where
  "lstrip s = dropWhile is_space s"

definition rstrip :: "ustring \<Rightarrow> ustring" where
  "rstrip s = rev (dropWhile is_space (rev s))"

definition strip :: "ustring \<Rightarrow> ustring" where
  "strip s = rstrip (lstrip s)"

text \<open>\<open>s.replace(c, new)\<close> for a pattern of one character.\<close>

definition replace_char :: "int \<Rightarrow> ustring \<Rightarrow> ustring \<Rightarrow> ustring" where
  "replace_char c new s = concat (map (\<lambda>x. if x = c then new else [x]) s)"

fun join :: "ustring \<Rightarrow> ustring list \<Rightarrow> ustring" where
  "join sep [] = []"
| "join sep [x] = x"
| "join sep (x # y # ys) = x @ sep @ join sep (y # ys)"


section \<open>Calendar dates\<close>

text \<open>
  \<open>datetime.date\<close>: a year, a month and a day. Comparison is lexicographic, the difference
  of two dates is the difference of their ordinals, as in the library.
\<close>

record date =
  d_year :: int
  d_month :: int
  d_day :: int

definition is_leap :: "int \<Rightarrow> bool" where
  "is_leap y = (y mod 4 = 0 \<and> (y mod 100 \<noteq> 0 \<or> y mod 400 = 0))"

definition days_in_month :: "int \<Rightarrow> int \<Rightarrow> int" where
  "days_in_month y m =
     (if m = 2 then (if is_leap y then 29 else 28)
      else if m = 4 \<or> m = 6 \<or> m = 9 \<or> m = 11 then 30 else 31)"

definition days_before_year :: "int \<Rightarrow> int" where
  "days_before_year y = (let p = y - 1 in p * 365 + p div 4 - p div 100 + p div 400)"

definition days_before_month :: "int \<Rightarrow> int \<Rightarrow> int" where
  "days_before_month y m =
     [- 1, 0, 31, 59, 90, 120, 151, 181, 212, 243, 273, 304, 334] ! nat m
       + (if 2 < m \<and> is_leap y then 1 else 0)"

definition toordinal :: "date \<Rightarrow> int" where
  "toordinal d = days_before_year (d_year d) + days_before_month (d_year d) (d_month d) + d_day d"

text \<open>The dates the \<open>date\<close> constructor accepts; every \<open>date\<close> object is one of them.\<close>

definition valid_date :: "date \<Rightarrow> bool" where
  "valid_date d =
     (1 \<le> d_year d \<and> d_year d \<le> 9999 \<and> 1 \<le> d_month d \<and> d_month d \<le> 12 \<and>
      1 \<le> d_day d \<and> d_day d \<le> days_in_month (d_year d) (d_month d))"

definition date_lt :: "date \<Rightarrow> date \<Rightarrow> bool" where
  "date_lt a b =
     (d_year a < d_year b \<or>
      (d_year a = d_year b \<and>
        (d_month a < d_month b \<or> (d_month a = d_month b \<and> d_day a < d_day b))))"

text \<open>\<open>(a - b).days\<close>\<close>

definition date_diff_days :: "date \<Rightarrow> date \<Rightarrow> int" where
  "date_diff_days a b = toordinal a - toordinal b"

definition zero_pad :: "nat \<Rightarrow> ustring \<Rightarrow> ustring" where
  "zero_pad w s = replicate (w - length s) 48 @ s"

definition isoformat :: "date \<Rightarrow> ustring" where
  "isoformat d =
     zero_pad 4 (str_int (d_year d)) @ [45] @ zero_pad 2 (str_int (d_month d)) @ [45] @
     zero_pad 2 (str_int (d_day d))"


section \<open>The Python library\<close>

text \<open>
  What the program takes from the interpreter and its library, and what differs between
  their versions, is a parameter of the model:
  \<^item> \<open>str_lower\<close> is \<open>str.lower\<close>, which follows the case mappings of the Unicode
    database;
  \<^item> \<open>decimal\<close> gives the value of a code point that is a decimal digit of the Unicode
    database, and \<open>None\<close> for any other; the pattern \<open>\d\<close> and \<open>int()\<close> both go by it;
  \<^item> \<open>max_str_digits\<close> is the limit on the number of digits that \<open>int()\<close> converts (4300
    by default where the interpreter has the limit), and 0 when there is no limit;
  \<^item> \<open>iso_fields\<close> is the grammar of \<open>datetime.fromisoformat\<close>: the fields it reads from
    a string, and \<open>None\<close> where it rejects the string with a \<open>ValueError\<close>.
\<close>

record datetime =
  dt_date :: date
  dt_hour :: int
  dt_minute :: int
  dt_second :: int
  dt_microsecond :: int
  dt_utcoffset :: "(int \<times> int) option"

record pylib =
  str_lower :: "ustring \<Rightarrow> ustring"
  decimal :: "int \<Rightarrow> nat option"
  max_str_digits :: int
  iso_fields :: "ustring \<Rightarrow> datetime option"

text \<open>
  The constructor of \<open>datetime\<close> checks the ranges of the fields and raises \<open>ValueError\<close>;
  an offset, in seconds and microseconds, must be strictly within one day.
\<close>

definition datetime_new :: "datetime \<Rightarrow> error + datetime" where
  "datetime_new f =
     (if valid_date (dt_date f) \<and>
         0 \<le> dt_hour f \<and> dt_hour f < 24 \<and> 0 \<le> dt_minute f \<and> dt_minute f < 60 \<and>
         0 \<le> dt_second f \<and> dt_second f < 60 \<and>
         0 \<le> dt_microsecond f \<and> dt_microsecond f < 1000000 \<and>
         (case dt_utcoffset f of
            None \<Rightarrow> True
          | Some (s, us) \<Rightarrow> \<bar>s * 1000000 + us\<bar> < 86400 * 1000000)
      then Inr f else Inl ValueError)"

definition fromisoformat :: "pylib \<Rightarrow> ustring \<Rightarrow> error + datetime" where
  "fromisoformat L s =
     (case iso_fields L s of None \<Rightarrow> Inl ValueError | Some f \<Rightarrow> datetime_new f)"


section \<open>Value normalisation\<close>

text \<open>\<open>try: body except Exception: handler\<close>; every \<open>error\<close> here is an \<open>Exception\<close>.\<close>

definition try_except :: "error + 'a \<Rightarrow> (error \<Rightarrow> error + 'a) \<Rightarrow> error + 'a" where
  "try_except body handler = (case body of Inl e \<Rightarrow> handler e | Inr x \<Rightarrow> Inr x)"

definition parse_date :: "pylib \<Rightarrow> pyval \<Rightarrow> error + date option" where
  "parse_date L val =
     (if \<not> truthy val then Inr None
      else
        try_except
          (case fromisoformat L (replace_char 90 (ascii ''+00:00'') (py_str val)) of
             Inl e \<Rightarrow> Inl e
           | Inr d \<Rightarrow> Inr (Some (dt_date d)))
          (\<lambda>e. Inr None))"

definition normalize_status :: "pylib \<Rightarrow> pyval \<Rightarrow> ustring" where
  "normalize_status L val = (if val = PNone then [] else str_lower L (strip (py_str val)))"

definition COMPLETED_VALUES :: "ustring set" where
  "COMPLETED_VALUES =
     {ascii ''completed'', ascii ''complete'', ascii ''done'', ascii ''closed'', ascii ''100%''}"


section \<open>The tabular document\<close>

text \<open>
  The document is the JSON object the sheet source returns. A key that \<open>.get\<close> reads may
  be absent (\<open>None\<close>); the title and the id of a column are read with \<open>c["title"]\<close> and
  \<open>c["id"]\<close> and are always there. In a cell, \<open>c_value = None\<close> says that the key
  \<open>"value"\<close> is absent, \<open>c_value = Some PNone\<close> that it is there and holds \<open>null\<close>.
\<close>

record column =
  col_title :: ustring
  col_id :: int
  col_primary :: "pyval option"

record cell =
  c_columnId :: "int option"
  c_value :: "pyval option"
  c_displayValue :: "pyval option"

record row =
  cells :: "cell list option"

record sheet =
  columns :: "column list option"
  rows :: "row list option"

text \<open>\<open>d.get(key, [])\<close>\<close>

definition get_list :: "'a list option \<Rightarrow> 'a list" where
  "get_list x = (case x of None \<Rightarrow> [] | Some xs \<Rightarrow> xs)"

text \<open>\<open>d.get(key)\<close>\<close>

definition get_val :: "pyval option \<Rightarrow> pyval" where
  "get_val x = (case x of None \<Rightarrow> PNone | Some v \<Rightarrow> v)"

text \<open>
  A Python \<open>dict\<close> with string keys, as the list of its items in insertion order:
  \<open>AList.update\<close> replaces the value of a key that is there, in place, and appends a
  new key at the end.
\<close>

type_synonym pydict = "(ustring \<times> int) list"

definition column_step ::
  "pylib \<Rightarrow> pydict \<times> pydict \<times> int option \<Rightarrow> column \<Rightarrow> pydict \<times> pydict \<times> int option" where
  "column_step L acc c =
     (case acc of (title_to_id, norm_to_id, primary_col_id) \<Rightarrow>
        (AList.update (col_title c) (col_id c) title_to_id,
         AList.update (str_lower L (strip (col_title c))) (col_id c) norm_to_id,
         if truthy (get_val (col_primary c)) then Some (col_id c) else primary_col_id))"

definition build_column_maps :: "pylib \<Rightarrow> sheet \<Rightarrow> pydict \<times> pydict \<times> int option" where
  "build_column_maps L sh = foldl (column_step L) ([], [], None) (get_list (columns sh))"

fun cell_scan :: "cell list \<Rightarrow> int option \<Rightarrow> pyval" where
  "cell_scan [] cid = PNone"
| "cell_scan (c # cs) cid =
     (if c_columnId c = cid then
        (case c_value c of
           Some v \<Rightarrow> v
         | None \<Rightarrow> (case c_displayValue c of Some v \<Rightarrow> v | None \<Rightarrow> PNone))
      else cell_scan cs cid)"

definition cell_value :: "row \<Rightarrow> int option \<Rightarrow> pyval" where
  "cell_value r cid = cell_scan (get_list (cells r)) cid"


section \<open>Schema detection\<close>

record milestone_set =
  ms_label :: ustring
  title_id :: int
  date_id :: int
  status_id :: int

definition is_decimal :: "pylib \<Rightarrow> int \<Rightarrow> bool" where
  "is_decimal L c = (decimal L c \<noteq> None)"

text \<open>
  \<open>re.match(r"^m(\d+)$", s)\<close>: the group of digits, when \<open>s\<close> matches. In Python \<open>$\<close>
  matches at the end of the string and also before a newline that ends it.
\<close>

definition base_re_match :: "pylib \<Rightarrow> ustring \<Rightarrow> ustring option" where
  "base_re_match L s =
     (case s of
        [] \<Rightarrow> None
      | c # r \<Rightarrow>
          if c = 109 \<and> takeWhile (is_decimal L) r \<noteq> [] \<and>
             (dropWhile (is_decimal L) r = [] \<or> dropWhile (is_decimal L) r = [10])
          then Some (takeWhile (is_decimal L) r) else None)"

text \<open>The loop over the keys; \<open>norm_to_id[base]\<close> raises \<open>KeyError\<close> on a missing key.\<close>

fun detect_loop :: "pylib \<Rightarrow> pydict \<Rightarrow> ustring list \<Rightarrow> error + milestone_set list" where
  "detect_loop L norm_to_id [] = Inr []"
| "detect_loop L norm_to_id (norm_title # ks) =
     (case base_re_match L norm_title of
        None \<Rightarrow> detect_loop L norm_to_id ks
      | Some n \<Rightarrow>
          if map_of norm_to_id (109 # n @ ascii '' date'') \<noteq> None \<and>
             map_of norm_to_id (109 # n @ ascii '' status'') \<noteq> None
          then
            (case map_of norm_to_id (109 # n) of
               None \<Rightarrow> Inl (KeyError (109 # n))
             | Some tid \<Rightarrow>
                 (case detect_loop L norm_to_id ks of
                    Inl e \<Rightarrow> Inl e
                  | Inr sets \<Rightarrow>
                      Inr (\<lparr>ms_label = 77 # n, title_id = tid,
                            date_id = the (map_of norm_to_id (109 # n @ ascii '' date'')),
                            status_id = the (map_of norm_to_id (109 # n @ ascii '' status''))\<rparr>
                           # sets)))
          else detect_loop L norm_to_id ks)"

text \<open>The number a string of decimal digits denotes.\<close>

definition digits_value :: "pylib \<Rightarrow> ustring \<Rightarrow> int" where
  "digits_value L s =
     foldl (\<lambda>a c. 10 * a + (case decimal L c of None \<Rightarrow> 0 | Some v \<Rightarrow> int v)) 0 s"

text \<open>
  \<open>int(s)\<close> for a string of decimal digits, the only strings the detector converts: a
  \<open>ValueError\<close> when the interpreter has a limit and the string has more digits.
\<close>

definition py_int :: "pylib \<Rightarrow> ustring \<Rightarrow> error + int" where
  "py_int L s =
     (if 0 < max_str_digits L \<and> max_str_digits L < int (length s) then Inl ValueError
      else Inr (digits_value L s))"

text \<open>
  \<open>sets.sort(key=lambda x: int(x["label"][1:]))\<close>: the keys of all elements are computed
  first, in the order of the list, and an exception of the key function ends the sort;
  then the list is sorted by the keys. \<open>list.sort\<close> is stable, and a stable sort by a key
  has one result only: \<open>sort_key\<close>, which is stable too, gives it.
\<close>

fun label_keys :: "pylib \<Rightarrow> milestone_set list \<Rightarrow> error + int list" where
  "label_keys L [] = Inr []"
| "label_keys L (x # xs) =
     (case py_int L (drop 1 (ms_label x)) of
        Inl e \<Rightarrow> Inl e
      | Inr k \<Rightarrow> (case label_keys L xs of Inl e \<Rightarrow> Inl e | Inr ks \<Rightarrow> Inr (k # ks)))"

definition detect_milestone_sets :: "pylib \<Rightarrow> pydict \<Rightarrow> error + milestone_set list" where
  "detect_milestone_sets L norm_to_id =
     (case detect_loop L norm_to_id (map fst norm_to_id) of
        Inl e \<Rightarrow> Inl e
      | Inr sets \<Rightarrow>
          (case label_keys L sets of
             Inl e \<Rightarrow> Inl e
           | Inr ks \<Rightarrow> Inr (map snd (sort_key fst (zip ks sets)))))"


section \<open>The past-due evaluator\<close>

text \<open>
  The evaluator reads the clock itself, through \<open>get_today_local\<close>. The world it runs in
  is the current time in the configured time zone.
\<close>

record world =
  local_now :: datetime

definition get_today_local :: "world \<Rightarrow> date" where
  "get_today_local w = dt_date (local_now w)"

record hit =
  h_milestone :: pyval
  h_label :: ustring
  h_due :: ustring
  h_days :: int
  h_status :: pyval

record project_result =
  project :: pyval
  hits :: "hit list"

text \<open>
  The body of the loop over the milestone sets: the hit it appends, if any. An exception
  of \<open>parse_date\<close> would leave the loop and the evaluator.
\<close>

definition milestone_hit :: "pylib \<Rightarrow> date \<Rightarrow> row \<Rightarrow> milestone_set \<Rightarrow> error + hit option" where
  "milestone_hit L today r ms =
     (let title = py_or (cell_value r (Some (title_id ms))) (PStr (ms_label ms));
          due_val = cell_value r (Some (date_id ms));
          status_val = cell_value r (Some (status_id ms))
      in case parse_date L due_val of
           Inl e \<Rightarrow> Inl e
         | Inr None \<Rightarrow> Inr None
         | Inr (Some due_dt) \<Rightarrow>
             if date_lt due_dt today \<and> normalize_status L status_val \<notin> COMPLETED_VALUES
             then Inr (Some \<lparr>h_milestone = title, h_label = ms_label ms,
                             h_due = isoformat due_dt,
                             h_days = date_diff_days today due_dt, h_status = status_val\<rparr>)
             else Inr None)"

text \<open>The hits of one row, in the order of the schema, before they are sorted.\<close>

fun row_hits :: "pylib \<Rightarrow> date \<Rightarrow> milestone_set list \<Rightarrow> row \<Rightarrow> error + hit list" where
  "row_hits L today [] r = Inr []"
| "row_hits L today (ms # rest) r =
     (case milestone_hit L today r ms of
        Inl e \<Rightarrow> Inl e
      | Inr ho \<Rightarrow>
          (case row_hits L today rest r of
             Inl e \<Rightarrow> Inl e
           | Inr hs \<Rightarrow> Inr (case ho of None \<Rightarrow> hs | Some h \<Rightarrow> h # hs)))"

text \<open>\<open>xs.sort(key=..., reverse=True)\<close>: descending, elements of equal key in their old order.\<close>

definition sort_desc :: "('a \<Rightarrow> int) \<Rightarrow> 'a list \<Rightarrow> 'a list" where
  "sort_desc f xs = sort_key (\<lambda>x. - f x) xs"

text \<open>The body of the loop over the rows: the result it appends, if any.\<close>

definition row_result ::
  "pylib \<Rightarrow> date \<Rightarrow> int option \<Rightarrow> milestone_set list \<Rightarrow> row \<Rightarrow> error + project_result option"
  where
  "row_result L today primary_col_id milestone_sets r =
     (let proj = py_or (cell_value r primary_col_id) (PStr (ascii ''(Unnamed Project)''))
      in case row_hits L today milestone_sets r of
           Inl e \<Rightarrow> Inl e
         | Inr hs \<Rightarrow>
             Inr (if hs \<noteq> [] then Some \<lparr>project = proj, hits = sort_desc h_days hs\<rparr>
                  else None))"

text \<open>The loop over the rows: the results in the order of the rows.\<close>

fun row_results ::
  "pylib \<Rightarrow> date \<Rightarrow> int option \<Rightarrow> milestone_set list \<Rightarrow> row list \<Rightarrow>
     error + project_result list" where
  "row_results L today p sets [] = Inr []"
| "row_results L today p sets (r # rs) =
     (case row_result L today p sets r of
        Inl e \<Rightarrow> Inl e
      | Inr ro \<Rightarrow>
          (case row_results L today p sets rs of
             Inl e \<Rightarrow> Inl e
           | Inr res \<Rightarrow> Inr (case ro of None \<Rightarrow> res | Some x \<Rightarrow> x # res)))"

text \<open>
  The key of the last sort, \<open>r["hits"][0]["days"]\<close>. Every result holds a hit, so the
  \<open>IndexError\<close> of an empty list is never met; that branch gives 0 here.
\<close>

definition first_days :: "project_result \<Rightarrow> int" where
  "first_days r = (case hits r of [] \<Rightarrow> 0 | h # _ \<Rightarrow> h_days h)"

definition find_past_due_milestones ::
  "pylib \<Rightarrow> world \<Rightarrow> sheet \<Rightarrow> error + project_result list" where
  "find_past_due_milestones L w sh =
     (case build_column_maps L sh of (title_to_id, norm_to_id, primary_col_id) \<Rightarrow>
      let today = get_today_local w in
      case detect_milestone_sets L norm_to_id of
        Inl e \<Rightarrow> Inl e
      | Inr milestone_sets \<Rightarrow>
          if milestone_sets = [] then
            Inl (RuntimeError (ascii
              ''No milestone columns found (expected M1 / M1 date / M1 Status pattern).''))
          else
            (case row_results L today primary_col_id milestone_sets (get_list (rows sh)) of
               Inl e \<Rightarrow> Inl e
             | Inr results \<Rightarrow> Inr (sort_desc first_days results)))"


section \<open>The summary\<close>

text \<open>The party popper is U+1F389, the bullet U+2022.\<close>

definition celebratory :: ustring where
  "celebratory = ascii ''No past-due incomplete milestones found '' @ [0x1F389]"

definition bullet :: ustring where
  "bullet = [0x2022]"

definition hit_line :: "hit \<Rightarrow> ustring" where
  "hit_line h =
     ascii ''   - '' @ py_str (h_milestone h) @ ascii '' ('' @ h_label h @
     ascii '') | Due: '' @ h_due h @ ascii '' | Overdue: '' @ str_int (h_days h) @
     ascii ''d | Status: '' @ py_str (h_status h)"

definition project_lines :: "project_result \<Rightarrow> ustring list" where
  "project_lines r = [bullet @ ascii '' '' @ py_str (project r)] @ map hit_line (hits r) @ [[]]"

definition format_summary :: "project_result list \<Rightarrow> ustring" where
  "format_summary results =
     (if results = [] then celebratory
      else
        let total = sum_list (map (\<lambda>r. int (length (hits r))) results);
            lines = [ascii ''Past-due milestones (not completed): '' @ str_int total,
                     ascii ''Projects impacted: '' @ str_int (int (length results)),
                     []] @ concat (map project_lines results)
        in strip (join [10] lines))"


section \<open>Names for the parts of a run\<close>

text \<open>
  The normalised column names of a document with their identifiers, the milestone sets
  detected in them, and the primary column.
\<close>

definition norm_names :: "pylib \<Rightarrow> sheet \<Rightarrow> pydict" where
  "norm_names L sh = fst (snd (build_column_maps L sh))"

definition milestone_sets_of :: "pylib \<Rightarrow> sheet \<Rightarrow> error + milestone_set list" where
  "milestone_sets_of L sh = detect_milestone_sets L (norm_names L sh)"

definition primary_of :: "pylib \<Rightarrow> sheet \<Rightarrow> int option" where
  "primary_of L sh = snd (snd (build_column_maps L sh))"

text \<open>A string of digits is beyond the limit of \<open>int()\<close>.\<close>

definition exceeds_limit :: "pylib \<Rightarrow> ustring \<Rightarrow> bool" where
  "exceeds_limit L n = (0 < max_str_digits L \<and> max_str_digits L < int (length n))"


section \<open>The schema in the words of the specification\<close>

text \<open>
  The next definitions follow the words of the specification, not the code; the
  detector is compared with them. A base name is \<open>m\<close> followed by one or more digits and
  nothing else. A base name has its companions in a dictionary when \<open>name date\<close> and
  \<open>name status\<close> are keys too. Its schema entry has the label \<open>M\<close> and the digits, and
  the identifiers the dictionary gives for the three names. The number of an entry is
  the number its digits denote.
\<close>

definition is_base_name :: "pylib \<Rightarrow> ustring \<Rightarrow> bool" where
  "is_base_name L k =
     (case k of [] \<Rightarrow> False | c # n \<Rightarrow> c = 109 \<and> n \<noteq> [] \<and> list_all (is_decimal L) n)"

definition has_companions :: "pylib \<Rightarrow> pydict \<Rightarrow> ustring \<Rightarrow> bool" where
  "has_companions L d k =
     (is_base_name L k \<and> k @ ascii '' date'' \<in> fst ` set d \<and>
      k @ ascii '' status'' \<in> fst ` set d)"

definition set_for :: "pydict \<Rightarrow> ustring \<Rightarrow> milestone_set" where
  "set_for d k =
     \<lparr>ms_label = 77 # tl k, title_id = the (map_of d k),
      date_id = the (map_of d (k @ ascii '' date'')),
      status_id = the (map_of d (k @ ascii '' status''))\<rparr>"

definition label_number :: "pylib \<Rightarrow> milestone_set \<Rightarrow> int" where
  "label_number L x = digits_value L (drop 1 (ms_label x))"


section \<open>What the claims ask of the library\<close>

text \<open>
  Two facts about \<open>str.lower\<close> that hold in every version of Python: on a string of
  ASCII characters it maps the capital letters A to Z to the small ones and changes
  nothing else; and it maps a string without whitespace at its ends to such a string.
\<close>

definition lower_cp :: "int \<Rightarrow> int" where
  "lower_cp c = (if 65 \<le> c \<and> c \<le> 90 then c + 32 else c)"

definition lower_on_ascii :: "pylib \<Rightarrow> bool" where
  "lower_on_ascii L = (\<forall>s. list_all (\<lambda>c. 0 \<le> c \<and> c < 128) s \<longrightarrow> str_lower L s = map lower_cp s)"

definition lower_keeps_trimmed :: "pylib \<Rightarrow> bool" where
  "lower_keeps_trimmed L = (\<forall>s. strip s = s \<longrightarrow> strip (str_lower L s) = str_lower L s)"


section \<open>A library for the examples\<close>

text \<open>
  The examples need one library to run with. This one lower-cases the ASCII letters only,
  knows the ASCII digits only, has the default limit of 4300 digits, and reads dates in
  the format that the documentation of \<open>fromisoformat\<close> gives for Python 3.7,
  \<^verbatim>\<open>YYYY-MM-DD[*HH[:MM[:SS[.fff[fff]]]][+HH:MM[:SS[.ffffff]]]]\<close>
  where \<open>*\<close> is any single character. On the texts of the examples, which are ASCII, it
  does what every version of Python does.
\<close>

definition ascii_decimal :: "int \<Rightarrow> nat option" where
  "ascii_decimal c = (if 48 \<le> c \<and> c \<le> 57 then Some (nat (c - 48)) else None)"

definition is_ascii_digit :: "int \<Rightarrow> bool" where
  "is_ascii_digit c = (48 \<le> c \<and> c \<le> 57)"

definition ascii_digits_value :: "ustring \<Rightarrow> int" where
  "ascii_digits_value s = foldl (\<lambda>a c. 10 * a + (c - 48)) 0 s"

definition parse_digits :: "nat \<Rightarrow> ustring \<Rightarrow> (int \<times> ustring) option" where
  "parse_digits n s =
     (if n \<le> length s \<and> list_all is_ascii_digit (take n s)
      then Some (ascii_digits_value (take n s), drop n s) else None)"

definition expect_char :: "int \<Rightarrow> ustring \<Rightarrow> ustring option" where
  "expect_char c s = (case s of [] \<Rightarrow> None | x # r \<Rightarrow> if x = c then Some r else None)"

definition parse_isoformat_date :: "ustring \<Rightarrow> (date \<times> ustring) option" where
  "parse_isoformat_date s =
     (case parse_digits 4 s of None \<Rightarrow> None | Some (y, r1) \<Rightarrow>
      case expect_char 45 r1 of None \<Rightarrow> None | Some r2 \<Rightarrow>
      case parse_digits 2 r2 of None \<Rightarrow> None | Some (m, r3) \<Rightarrow>
      case expect_char 45 r3 of None \<Rightarrow> None | Some r4 \<Rightarrow>
      case parse_digits 2 r4 of None \<Rightarrow> None | Some (d, r5) \<Rightarrow>
        Some (\<lparr>d_year = y, d_month = m, d_day = d\<rparr>, r5))"

text \<open>\<open>.fff\<close> or \<open>.ffffff\<close>, up to the end of the string: the microseconds.\<close>

definition parse_fraction :: "ustring \<Rightarrow> int option" where
  "parse_fraction s =
     (if length s = 3 \<and> list_all is_ascii_digit s then Some (ascii_digits_value s * 1000)
      else if length s = 6 \<and> list_all is_ascii_digit s then Some (ascii_digits_value s)
      else None)"

text \<open>\<open>HH[:MM[:SS[.fff[fff]]]]\<close>, the whole string: hour, minute, second, microsecond.\<close>

definition parse_hh_mm_ss_ff :: "ustring \<Rightarrow> (int \<times> int \<times> int \<times> int) option" where
  "parse_hh_mm_ss_ff s =
     (case parse_digits 2 s of None \<Rightarrow> None | Some (h, r1) \<Rightarrow>
      if r1 = [] then Some (h, 0, 0, 0) else
      case expect_char 58 r1 of None \<Rightarrow> None | Some r2 \<Rightarrow>
      case parse_digits 2 r2 of None \<Rightarrow> None | Some (mi, r3) \<Rightarrow>
      if r3 = [] then Some (h, mi, 0, 0) else
      case expect_char 58 r3 of None \<Rightarrow> None | Some r4 \<Rightarrow>
      case parse_digits 2 r4 of None \<Rightarrow> None | Some (sec, r5) \<Rightarrow>
      if r5 = [] then Some (h, mi, sec, 0) else
      case expect_char 46 r5 of None \<Rightarrow> None | Some r6 \<Rightarrow>
      case parse_fraction r6 of None \<Rightarrow> None | Some us \<Rightarrow> Some (h, mi, sec, us))"

definition is_sign :: "int \<Rightarrow> bool" where
  "is_sign c = (c = 43 \<or> c = 45)"

text \<open>The offset \<open>+HH:MM[:SS[.ffffff]]\<close>, sign included: seconds and microseconds.\<close>

definition parse_utcoffset :: "ustring \<Rightarrow> (int \<times> int) option" where
  "parse_utcoffset s =
     (case s of [] \<Rightarrow> None | c # body \<Rightarrow>
      if length body = 5 \<or> length body = 8 \<or> length body = 15 then
        (case parse_hh_mm_ss_ff body of None \<Rightarrow> None | Some (h, mi, sec, us) \<Rightarrow>
           let sgn = (if c = 45 then - 1 else 1)
           in Some (sgn * (h * 3600 + mi * 60 + sec), sgn * us))
      else None)"

definition documented_iso_fields :: "ustring \<Rightarrow> datetime option" where
  "documented_iso_fields s =
     (case parse_isoformat_date s of None \<Rightarrow> None | Some (d, r) \<Rightarrow>
      case r of
        [] \<Rightarrow> Some \<lparr>dt_date = d, dt_hour = 0, dt_minute = 0, dt_second = 0,
                    dt_microsecond = 0, dt_utcoffset = None\<rparr>
      | c # tstr \<Rightarrow>
          let timestr = takeWhile (\<lambda>x. \<not> is_sign x) tstr;
              tzstr = dropWhile (\<lambda>x. \<not> is_sign x) tstr
          in (case parse_hh_mm_ss_ff timestr of None \<Rightarrow> None | Some (h, mi, sec, us) \<Rightarrow>
              if tzstr = [] then
                Some \<lparr>dt_date = d, dt_hour = h, dt_minute = mi, dt_second = sec,
                      dt_microsecond = us, dt_utcoffset = None\<rparr>
              else (case parse_utcoffset tzstr of None \<Rightarrow> None | Some off \<Rightarrow>
                Some \<lparr>dt_date = d, dt_hour = h, dt_minute = mi, dt_second = sec,
                      dt_microsecond = us, dt_utcoffset = Some off\<rparr>)))"

definition example_lib :: pylib where
  "example_lib =
     \<lparr>str_lower = map lower_cp, decimal = ascii_decimal, max_str_digits = 4300,
      iso_fields = documented_iso_fields\<rparr>"


section \<open>Example documents\<close>

text \<open>
  The document of the scenario: the columns Project (primary), M1, M1 Date and M1 Status,
  and the one row of project Alpha; the clock of the scenario, on 2020-01-10. The row
  is built from its name, its due date and its status.
\<close>

definition project_row :: "pyval \<Rightarrow> pyval \<Rightarrow> pyval \<Rightarrow> row" where
  "project_row name due status =
     \<lparr>cells = Some
        [\<lparr>c_columnId = Some 1, c_value = Some name, c_displayValue = None\<rparr>,
         \<lparr>c_columnId = Some 2, c_value = Some (PStr (ascii ''Kickoff'')), c_displayValue = None\<rparr>,
         \<lparr>c_columnId = Some 3, c_value = Some due, c_displayValue = None\<rparr>,
         \<lparr>c_columnId = Some 4, c_value = Some status, c_displayValue = None\<rparr>]\<rparr>"

definition alpha_row :: row where
  "alpha_row =
     project_row (PStr (ascii ''Alpha'')) (PStr (ascii ''2020-01-01'')) (PStr (ascii ''Open''))"

definition alpha_columns :: "column list" where
  "alpha_columns =
     [\<lparr>col_title = ascii ''Project'', col_id = 1, col_primary = Some (PBool True)\<rparr>,
      \<lparr>col_title = ascii ''M1'', col_id = 2, col_primary = None\<rparr>,
      \<lparr>col_title = ascii ''M1 Date'', col_id = 3, col_primary = None\<rparr>,
      \<lparr>col_title = ascii ''M1 Status'', col_id = 4, col_primary = None\<rparr>]"

definition alpha_sheet :: sheet where
  "alpha_sheet = \<lparr>columns = Some alpha_columns, rows = Some [alpha_row]\<rparr>"

definition m1_set :: milestone_set where
  "m1_set = \<lparr>ms_label = ascii ''M1'', title_id = 2, date_id = 3, status_id = 4\<rparr>"

definition clock_at :: "date \<Rightarrow> world" where
  "clock_at d =
     \<lparr>local_now = \<lparr>dt_date = d, dt_hour = 8, dt_minute = 0, dt_second = 0, dt_microsecond = 0,
                    dt_utcoffset = None\<rparr>\<rparr>"

definition jan_10 :: date where
  "jan_10 = \<lparr>d_year = 2020, d_month = 1, d_day = 10\<rparr>"

definition jan_01 :: date where
  "jan_01 = \<lparr>d_year = 2020, d_month = 1, d_day = 1\<rparr>"

definition kickoff_hit :: hit where
  "kickoff_hit =
     \<lparr>h_milestone = PStr (ascii ''Kickoff''), h_label = ascii ''M1'',
      h_due = ascii ''2020-01-01'', h_days = 9, h_status = PStr (ascii ''Open'')\<rparr>"

definition alpha_result :: project_result where
  "alpha_result = \<lparr>project = PStr (ascii ''Alpha''), hits = [kickoff_hit]\<rparr>"

text \<open>
  A document with two milestone sets, the columns of M2 before those of M1, and three
  rows that hold a name and the two due dates only; the results expected on 2020-01-10.
\<close>

definition beta_columns :: "column list" where
  "beta_columns =
     [\<lparr>col_title = ascii ''Project'', col_id = 1, col_primary = Some (PBool True)\<rparr>,
      \<lparr>col_title = ascii ''M2'', col_id = 5, col_primary = None\<rparr>,
      \<lparr>col_title = ascii ''M2 Date'', col_id = 6, col_primary = None\<rparr>,
      \<lparr>col_title = ascii ''M2 Status'', col_id = 7, col_primary = None\<rparr>,
      \<lparr>col_title = ascii ''M1'', col_id = 2, col_primary = None\<rparr>,
      \<lparr>col_title = ascii ''M1 Date'', col_id = 3, col_primary = None\<rparr>,
      \<lparr>col_title = ascii ''M1 Status'', col_id = 4, col_primary = None\<rparr>]"

definition two_dates_row :: "string \<Rightarrow> string \<Rightarrow> string \<Rightarrow> row" where
  "two_dates_row name due1 due2 =
     \<lparr>cells = Some
        [\<lparr>c_columnId = Some 1, c_value = Some (PStr (ascii name)), c_displayValue = None\<rparr>,
         \<lparr>c_columnId = Some 3, c_value = Some (PStr (ascii due1)), c_displayValue = None\<rparr>,
         \<lparr>c_columnId = Some 6, c_value = Some (PStr (ascii due2)), c_displayValue = None\<rparr>]\<rparr>"

definition beta_sheet :: sheet where
  "beta_sheet =
     \<lparr>columns = Some beta_columns,
      rows = Some [two_dates_row ''Alpha'' ''2020-01-05'' ''2020-01-01'',
                   two_dates_row ''Beta'' ''2020-01-01'' ''2020-01-01'',
                   two_dates_row ''Gamma'' ''2019-12-31'' ''2020-02-01'']\<rparr>"

definition label_hit :: "string \<Rightarrow> string \<Rightarrow> int \<Rightarrow> hit" where
  "label_hit l due n =
     \<lparr>h_milestone = PStr (ascii l), h_label = ascii l, h_due = ascii due, h_days = n,
      h_status = PNone\<rparr>"

definition beta_sets :: "milestone_set list" where
  "beta_sets =
     [\<lparr>ms_label = ascii ''M1'', title_id = 2, date_id = 3, status_id = 4\<rparr>,
      \<lparr>ms_label = ascii ''M2'', title_id = 5, date_id = 6, status_id = 7\<rparr>]"

definition beta_results :: "project_result list" where
  "beta_results =
     [\<lparr>project = PStr (ascii ''Gamma''), hits = [label_hit ''M1'' ''2019-12-31'' 10]\<rparr>,
      \<lparr>project = PStr (ascii ''Alpha''),
         hits = [label_hit ''M2'' ''2020-01-01'' 9, label_hit ''M1'' ''2020-01-05'' 5]\<rparr>,
      \<lparr>project = PStr (ascii ''Beta''),
         hits = [label_hit ''M1'' ''2020-01-01'' 9, label_hit ''M2'' ''2020-01-01'' 9]\<rparr>]"

text \<open>A dictionary of normalised names: three full triples, and \<open>m5\<close> without a status.\<close>

definition gamma_dict :: pydict where
  "gamma_dict =
     [(ascii ''m2'', 1), (ascii ''m2 date'', 2), (ascii ''m2 status'', 3),
      (ascii ''m10'', 4), (ascii ''m10 date'', 5), (ascii ''m10 status'', 6),
      (ascii ''m1'', 7), (ascii ''m1 date'', 8), (ascii ''m1 status'', 9),
      (ascii ''m5'', 10), (ascii ''m5 date'', 11), (ascii ''project'', 12)]"

definition gamma_sets :: "milestone_set list" where
  "gamma_sets =
     [\<lparr>ms_label = ascii ''M1'', title_id = 7, date_id = 8, status_id = 9\<rparr>,
      \<lparr>ms_label = ascii ''M2'', title_id = 1, date_id = 2, status_id = 3\<rparr>,
      \<lparr>ms_label = ascii ''M10'', title_id = 4, date_id = 5, status_id = 6\<rparr>]"

text \<open>
  A base name of 4301 digits, one more than the default limit of \<open>int()\<close>, with its
  companions: as a dictionary of normalised names, and as the columns of a document.
\<close>

definition long_name :: ustring where
  "long_name = 109 # replicate 4301 49"

definition long_dict :: pydict where
  "long_dict =
     [(long_name, 1), (long_name @ ascii '' date'', 2), (long_name @ ascii '' status'', 3)]"

definition long_sheet :: sheet where
  "long_sheet =
     \<lparr>columns = Some
        [\<lparr>col_title = long_name, col_id = 1, col_primary = None\<rparr>,
         \<lparr>col_title = long_name @ ascii '' date'', col_id = 2, col_primary = None\<rparr>,
         \<lparr>col_title = long_name @ ascii '' status'', col_id = 3, col_primary = None\<rparr>],
      rows = Some []\<rparr>"

text \<open>
  The example library with the Arabic-Indic digits U+0660 to U+0669 as decimal digits
  too, and a dictionary of normalised names where the number 2 is written with one.
\<close>

definition arabic_lib :: pylib where
  "arabic_lib =
     example_lib\<lparr>decimal :=
       (\<lambda>c. if 1632 \<le> c \<and> c \<le> 1641 then Some (nat (c - 1632)) else ascii_decimal c)\<rparr>"

definition arabic_dict :: pydict where
  "arabic_dict =
     [(ascii ''m10'', 4), (ascii ''m10 date'', 5), (ascii ''m10 status'', 6),
      ([109, 1634], 1), ([109, 1634] @ ascii '' date'', 2), ([109, 1634] @ ascii '' status'', 3)]"

definition arabic_sets :: "milestone_set list" where
  "arabic_sets =
     [\<lparr>ms_label = [77, 1634], title_id = 1, date_id = 2, status_id = 3\<rparr>,
      \<lparr>ms_label = ascii ''M10'', title_id = 4, date_id = 5, status_id = 6\<rparr>]"


section \<open>Facts about the calendar\<close>


lemma div_pred:
  fixes y n :: int
  assumes "0 < n"
  shows "(y - 1) div n = y div n - (if y mod n = 0 then 1 else 0)"
proof (cases "y mod n = 0")
  case True
  have "y = n * (y div n)" using True by auto
  then have "y - 1 = n * (y div n - 1) + (n - 1)" by (simp add: algebra_simps)
  then have "(y - 1) div n = y div n - 1"
    using assms by (intro int_div_pos_eq [where r = "n - 1"]) auto
  then show ?thesis using True by simp
next
  case False
  have "0 \<le> y mod n" "y mod n < n" using assms by auto
  then have r: "0 \<le> y mod n - 1" "y mod n - 1 < n" using False by auto
  have "y = n * (y div n) + y mod n" by simp
  then have "y - 1 = n * (y div n) + (y mod n - 1)" by linarith
  then have "(y - 1) div n = y div n"
    using r by (intro int_div_pos_eq [where r = "y mod n - 1"]) auto
  then show ?thesis using False by simp
qed

lemma leap_cases:
  fixes y :: int
  shows "y mod 400 = 0 \<Longrightarrow> y mod 100 = 0" and "y mod 100 = 0 \<Longrightarrow> y mod 4 = 0"
proof -
  have "y mod 100 = y mod 400 mod 100" by (simp add: mod_mod_cancel)
  then show "y mod 400 = 0 \<Longrightarrow> y mod 100 = 0" by simp
  have "y mod 4 = y mod 100 mod 4" by (simp add: mod_mod_cancel)
  then show "y mod 100 = 0 \<Longrightarrow> y mod 4 = 0" by simp
qed

lemma days_before_year_step:
  "days_before_year (y + 1) = days_before_year y + (if is_leap y then 366 else 365)"
proof -
  have a: "(y - 1) div 4 = y div 4 - (if y mod 4 = 0 then 1 else 0)" by (rule div_pred) simp
  have b: "(y - 1) div 100 = y div 100 - (if y mod 100 = 0 then 1 else 0)" by (rule div_pred) simp
  have c: "(y - 1) div 400 = y div 400 - (if y mod 400 = 0 then 1 else 0)" by (rule div_pred) simp
  show ?thesis
    using leap_cases [of y]
    by (simp add: days_before_year_def is_leap_def Let_def a b c)
qed

lemma days_before_year_add:
  "days_before_year (y + 1) \<le> days_before_year (y + 1 + int k)"
proof (induction k)
  case 0
  then show ?case by simp
next
  case (Suc k)
  have "y + 1 + int (Suc k) = (y + 1 + int k) + 1" by simp
  then have "days_before_year (y + 1 + int (Suc k)) = days_before_year ((y + 1 + int k) + 1)"
    by (rule arg_cong)
  also have "\<dots> \<ge> days_before_year (y + 1 + int k)"
    unfolding days_before_year_step [of "y + 1 + int k"] by simp
  finally show ?case using Suc by linarith
qed


lemma days_before_year_mono:
  assumes "y < y'"
  shows "days_before_year y + (if is_leap y then 366 else 365) \<le> days_before_year y'"
proof -
  define k where "k = nat (y' - y - 1)"
  have k: "y' = y + 1 + int k"
    using assms by (simp add: k_def)
  show ?thesis
    using days_before_year_add [of y k] by (simp add: k days_before_year_step)
qed

lemma month_cases:
  assumes "1 \<le> m" "m \<le> (12::int)"
  shows "m = 1 \<or> m = 2 \<or> m = 3 \<or> m = 4 \<or> m = 5 \<or> m = 6 \<or> m = 7 \<or> m = 8 \<or> m = 9 \<or>
         m = 10 \<or> m = 11 \<or> m = 12"
  using assms by arith

lemma days_before_month_step:
  assumes "1 \<le> m" "m \<le> 11"
  shows "days_before_month y (m + 1) = days_before_month y m + days_in_month y m"
proof -
  have "m = 1 \<or> m = 2 \<or> m = 3 \<or> m = 4 \<or> m = 5 \<or> m = 6 \<or> m = 7 \<or> m = 8 \<or> m = 9 \<or>
         m = 10 \<or> m = 11"
    using assms by arith
  then show ?thesis
    by (elim disjE) (simp_all add: days_before_month_def days_in_month_def)
qed

lemma days_in_month_pos: "1 \<le> days_in_month y m"
  by (simp add: days_in_month_def)

lemma days_before_month_add:
  assumes "1 \<le> m" "m + 1 + int k \<le> 12"
  shows "days_before_month y m + days_in_month y m \<le> days_before_month y (m + 1 + int k)"
  using assms
proof (induction k)
  case 0
  then show ?case by (simp add: days_before_month_step)
next
  case (Suc k)
  have eq: "m + 1 + int (Suc k) = (m + 1 + int k) + 1" by simp
  have "days_before_month y (m + 1 + int (Suc k)) =
        days_before_month y (m + 1 + int k) + days_in_month y (m + 1 + int k)"
    unfolding eq using Suc.prems by (intro days_before_month_step) auto
  then show ?case
    using Suc days_in_month_pos [of y "m + 1 + int k"] by simp
qed

lemma days_before_month_mono:
  assumes "1 \<le> m" "m < m'" "m' \<le> 12"
  shows "days_before_month y m + days_in_month y m \<le> days_before_month y m'"
proof -
  define k where "k = nat (m' - m - 1)"
  have k: "m' = m + 1 + int k"
    using assms(2) by (simp add: k_def)
  show ?thesis
    using days_before_month_add [of m k y] assms by (simp add: k)
qed

lemma days_before_month_year_end:
  assumes "1 \<le> m" "m \<le> 12"
  shows "days_before_month y m + days_in_month y m \<le> (if is_leap y then 366 else 365)"
proof (cases "m = 12")
  case True
  then show ?thesis by (simp add: days_before_month_def days_in_month_def)
next
  case False
  then have "days_before_month y m + days_in_month y m \<le> days_before_month y 12"
    using assms by (intro days_before_month_mono) auto
  moreover have "days_before_month y 12 = (if is_leap y then 335 else 334)"
    by (simp add: days_before_month_def)
  ultimately show ?thesis by (simp split: if_splits)
qed

lemma days_before_month_nonneg:
  assumes "1 \<le> m" "m \<le> 12"
  shows "0 \<le> days_before_month y m"
  using month_cases [OF assms]
  by (elim disjE) (simp_all add: days_before_month_def)

lemma toordinal_mono:
  assumes "valid_date a" "valid_date b" "date_lt a b"
  shows "toordinal a < toordinal b"
proof -
  consider (y) "d_year a < d_year b"
    | (m) "d_year a = d_year b" "d_month a < d_month b"
    | (d) "d_year a = d_year b" "d_month a = d_month b" "d_day a < d_day b"
    using assms(3) by (auto simp: date_lt_def)
  then show ?thesis
  proof cases
    case y
    have 1: "days_before_month (d_year a) (d_month a) + d_day a \<le> (if is_leap (d_year a) then 366 else 365)"
      using days_before_month_year_end [of "d_month a" "d_year a"] assms(1)
      by (simp add: valid_date_def)
    have 2: "0 \<le> days_before_month (d_year b) (d_month b)"
      using assms(2) by (intro days_before_month_nonneg) (simp_all add: valid_date_def)
    have 3: "1 \<le> d_day b" using assms(2) by (simp add: valid_date_def)
    show ?thesis
      using days_before_year_mono [OF y] 1 2 3 by (simp add: toordinal_def split: if_splits)
  next
    case m
    have "days_before_month (d_year a) (d_month a) + days_in_month (d_year a) (d_month a)
            \<le> days_before_month (d_year a) (d_month b)"
      using assms(1,2) m by (intro days_before_month_mono) (simp_all add: valid_date_def)
    moreover have "d_day a \<le> days_in_month (d_year a) (d_month a)" "1 \<le> d_day b"
      using assms(1,2) by (simp_all add: valid_date_def)
    ultimately show ?thesis using m by (simp add: toordinal_def)
  next
    case d
    then show ?thesis by (simp add: toordinal_def)
  qed
qed

lemma datetime_new_valid: "datetime_new f = Inr dt \<Longrightarrow> valid_date (dt_date dt)"
  by (auto simp: datetime_new_def split: if_splits)

lemma fromisoformat_valid: "fromisoformat L s = Inr dt \<Longrightarrow> valid_date (dt_date dt)"
  by (auto simp: fromisoformat_def dest: datetime_new_valid split: option.splits)

lemma parse_date_Inr: "\<exists>r. parse_date L v = Inr r"
  by (simp add: parse_date_def try_except_def split: sum.splits)

lemma parse_date_Some_iff:
  "parse_date L v = Inr (Some d) \<longleftrightarrow>
     truthy v \<and>
     (\<exists>dt. fromisoformat L (replace_char 90 (ascii ''+00:00'') (py_str v)) = Inr dt \<and>
           d = dt_date dt)"
  by (auto simp: parse_date_def try_except_def split: sum.splits)

lemma parse_date_valid:
  assumes "parse_date L v = Inr (Some d)"
  shows "valid_date d"
  using assms fromisoformat_valid unfolding parse_date_Some_iff by blast


section \<open>Facts about strings\<close>

lemma lstrip_spaces: "list_all is_space a \<Longrightarrow> lstrip (a @ s) = lstrip s"
  by (simp add: lstrip_def list_all_iff dropWhile_append2)

lemma rstrip_spaces:
  assumes "list_all is_space b"
  shows "rstrip (s @ b) = rstrip s"
proof -
  have "dropWhile is_space (rev b @ rev s) = dropWhile is_space (rev s)"
    by (rule dropWhile_append2) (use assms in \<open>auto simp: list_all_iff\<close>)
  then show ?thesis by (simp add: rstrip_def)
qed

lemma lstrip_append:
  "lstrip (s @ b) = (if list_all is_space s then lstrip b else lstrip s @ b)"
  by (auto simp: lstrip_def list_all_iff dropWhile_append2 dropWhile_append1)

lemma lstrip_all_space: "list_all is_space s \<Longrightarrow> lstrip s = []"
  by (simp add: lstrip_def list_all_iff)

lemma strip_pad:
  assumes "list_all is_space a" "list_all is_space b"
  shows "strip (a @ s @ b) = strip s"
proof (cases "list_all is_space s")
  case True
  then show ?thesis
    using assms by (simp add: strip_def lstrip_spaces lstrip_append lstrip_all_space)
next
  case False
  then show ?thesis
    using assms by (simp add: strip_def lstrip_spaces lstrip_append rstrip_spaces)
qed

lemma strip_last:
  assumes "strip s \<noteq> []"
  shows "\<not> is_space (last (strip s))"
proof -
  have "dropWhile is_space (rev (lstrip s)) \<noteq> []"
    using assms by (simp add: strip_def rstrip_def)
  then have "\<not> is_space (hd (dropWhile is_space (rev (lstrip s))))"
    by (rule hd_dropWhile)
  then show ?thesis
    using assms by (simp add: strip_def rstrip_def last_rev)
qed

lemma rstrip_decomp: "x = rstrip x @ rev (takeWhile is_space (rev x))"
proof -
  have "rev (dropWhile is_space (rev x)) @ rev (takeWhile is_space (rev x)) =
        rev (takeWhile is_space (rev x) @ dropWhile is_space (rev x))"
    by (simp only: rev_append)
  also have "\<dots> = x" by simp
  finally show ?thesis by (simp add: rstrip_def)
qed

lemma strip_hd:
  assumes "strip s \<noteq> []"
  shows "\<not> is_space (hd (strip s))"
proof -
  have ne: "rstrip (lstrip s) \<noteq> []" using assms by (simp add: strip_def)
  have "lstrip s = rstrip (lstrip s) @ rev (takeWhile is_space (rev (lstrip s)))"
    by (rule rstrip_decomp)
  then have "hd (lstrip s) = hd (rstrip (lstrip s) @ rev (takeWhile is_space (rev (lstrip s))))"
    by (rule arg_cong)
  then have h: "hd (lstrip s) = hd (rstrip (lstrip s))" using ne by simp
  have "lstrip s \<noteq> []" using ne by (auto simp: rstrip_def)
  then have "\<not> is_space (hd (lstrip s))"
    unfolding lstrip_def by (rule hd_dropWhile)
  then show ?thesis by (simp add: h strip_def)
qed

lemma strip_idem: "strip (strip s) = strip s"
proof (cases "strip s = []")
  case True
  have "strip [] = []" by (simp add: strip_def lstrip_def rstrip_def)
  then show ?thesis by (simp only: True)
next
  case False
  have l: "lstrip (strip s) = strip s"
    using strip_hd [OF False] False by (simp add: lstrip_def dropWhile_eq_self_iff)
  have "dropWhile is_space (rev (strip s)) = rev (strip s)"
    using strip_last [OF False] False by (simp add: dropWhile_eq_self_iff hd_rev)
  then have "rstrip (strip s) = strip s" by (simp add: rstrip_def)
  then show ?thesis by (subst strip_def) (simp add: l)
qed

lemma strip_fixed:
  assumes "s \<noteq> []" "\<not> is_space (hd s)" "\<not> is_space (last s)"
  shows "strip s = s"
proof -
  have l: "lstrip s = s" using assms(2) by (simp add: lstrip_def dropWhile_eq_self_iff)
  have "dropWhile is_space (rev s) = rev s"
    using assms(1,3) by (simp add: dropWhile_eq_self_iff hd_rev)
  then show ?thesis by (simp add: strip_def l rstrip_def)
qed

lemma strip_map:
  assumes "\<And>c. is_space (f c) = is_space c"
  shows "strip (map f s) = map f (strip s)"
proof -
  have "is_space \<circ> f = is_space" using assms by (simp add: fun_eq_iff)
  then show ?thesis
    by (simp add: strip_def lstrip_def rstrip_def dropWhile_map rev_map)
qed

lemma is_space_lower_cp [simp]: "is_space (lower_cp c) = is_space c"
  by (auto simp: is_space_def lower_cp_def)

lemma lower_cp_idem [simp]: "lower_cp (lower_cp c) = lower_cp c"
  by (simp add: lower_cp_def)

lemma strip_subset: "set (strip s) \<subseteq> set s"
proof -
  have "set (rstrip x) \<subseteq> set x" for x
    using set_dropWhileD [of _ is_space "rev x"] by (auto simp: rstrip_def)
  moreover have "set (lstrip s) \<subseteq> set s"
    using set_dropWhileD [of _ is_space s] by (auto simp: lstrip_def)
  ultimately show ?thesis unfolding strip_def by blast
qed



section \<open>Facts about the example library\<close>

lemma example_lib_lower_on_ascii: "lower_on_ascii example_lib"
  by (simp add: lower_on_ascii_def example_lib_def)

lemma example_lib_lower_keeps_trimmed: "lower_keeps_trimmed example_lib"
proof -
  have "strip (map lower_cp s) = map lower_cp s" if "strip s = s" for s
    using that strip_map [of lower_cp s] by simp
  then show ?thesis by (simp add: lower_keeps_trimmed_def example_lib_def)
qed


section \<open>Facts about the evaluator\<close>

lemma set_map_filter: "set (List.map_filter f xs) = {y. \<exists>x\<in>set xs. f x = Some y}"
  by (induction xs) (auto split: option.splits)

lemma map_filter_append:
  "List.map_filter f (xs @ ys) = List.map_filter f xs @ List.map_filter f ys"
  by (induction xs) (simp_all split: option.splits)

lemma set_sort_desc [simp]: "set (sort_desc f xs) = set xs"
  by (simp add: sort_desc_def)

lemma sort_key_Nil_iff: "sort_key f xs = [] \<longleftrightarrow> xs = []"
proof -
  have "length (sort_key f xs) = length xs" by simp
  then show ?thesis by (metis length_0_conv)
qed

lemma sort_desc_Nil [simp]: "sort_desc f xs = [] \<longleftrightarrow> xs = []"
  by (simp add: sort_desc_def sort_key_Nil_iff)

lemma sort_desc_stable: "filter (\<lambda>y. f y = k) (sort_desc f xs) = filter (\<lambda>y. f y = k) xs"
proof -
  have "filter (\<lambda>y. - f y = - k) (sort_key (\<lambda>x. - f x) xs) = filter (\<lambda>y. - f y = - k) xs"
    by (rule sort_key_stable)
  then show ?thesis by (simp add: sort_desc_def)
qed

lemma sort_desc_sorted: "sorted_wrt (\<lambda>a b. f b \<le> f a) (sort_desc f xs)"
proof -
  have "sorted (map (\<lambda>x. - f x) (sort_key (\<lambda>x. - f x) xs))" by (rule sorted_sort_key)
  then show ?thesis by (simp add: sort_desc_def sorted_map)
qed

lemma milestone_hit_Some_iff:
  "milestone_hit L today r ms = Inr (Some h) \<longleftrightarrow>
     (\<exists>d. parse_date L (cell_value r (Some (date_id ms))) = Inr (Some d) \<and> date_lt d today \<and>
          normalize_status L (cell_value r (Some (status_id ms))) \<notin> COMPLETED_VALUES \<and>
          h = \<lparr>h_milestone = py_or (cell_value r (Some (title_id ms))) (PStr (ms_label ms)),
               h_label = ms_label ms, h_due = isoformat d, h_days = date_diff_days today d,
               h_status = cell_value r (Some (status_id ms))\<rparr>)"
proof -
  obtain p where p: "parse_date L (cell_value r (Some (date_id ms))) = Inr p"
    using parse_date_Inr by blast
  show ?thesis
    by (cases p) (auto simp: milestone_hit_def Let_def p)
qed

lemma milestone_hit_None_iff:
  "milestone_hit L today r ms = Inr None \<longleftrightarrow>
     \<not> (\<exists>d. parse_date L (cell_value r (Some (date_id ms))) = Inr (Some d) \<and> date_lt d today \<and>
          normalize_status L (cell_value r (Some (status_id ms))) \<notin> COMPLETED_VALUES)"
proof -
  obtain p where p: "parse_date L (cell_value r (Some (date_id ms))) = Inr p"
    using parse_date_Inr by blast
  show ?thesis
    by (cases p) (auto simp: milestone_hit_def Let_def p)
qed

lemma milestone_hit_Inr: "\<exists>ho. milestone_hit L today r ms = Inr ho"
proof -
  obtain p where p: "parse_date L (cell_value r (Some (date_id ms))) = Inr p"
    using parse_date_Inr by blast
  show ?thesis
    by (cases p) (auto simp: milestone_hit_def Let_def p)
qed

lemma milestone_hit_projr:
  "milestone_hit L today r ms = Inr (projr (milestone_hit L today r ms))"
  using milestone_hit_Inr [of L today r ms] by auto

lemma milestone_hit_label:
  "milestone_hit L today r ms = Inr (Some h) \<Longrightarrow> h_label h = ms_label ms"
  unfolding milestone_hit_Some_iff by auto

lemma overdue_positive:
  assumes "valid_date today" "parse_date L v = Inr (Some d)" "date_lt d today"
  shows "1 \<le> date_diff_days today d"
  using toordinal_mono [OF parse_date_valid [OF assms(2)] assms(1) assms(3)]
  by (simp add: date_diff_days_def)

lemma row_hits_eq:
  "row_hits L today sets r =
     Inr (List.map_filter (\<lambda>ms. projr (milestone_hit L today r ms)) sets)"
proof (induction sets)
  case Nil
  then show ?case by simp
next
  case (Cons ms sets)
  obtain ho where ho: "milestone_hit L today r ms = Inr ho"
    using milestone_hit_Inr by blast
  show ?case by (simp add: ho Cons split: option.splits)
qed

lemma set_row_hits:
  assumes "row_hits L today sets r = Inr hs"
  shows "set hs = {h. \<exists>ms\<in>set sets. milestone_hit L today r ms = Inr (Some h)}"
proof -
  have hs: "hs = List.map_filter (\<lambda>ms. projr (milestone_hit L today r ms)) sets"
    using assms by (simp add: row_hits_eq)
  have "projr (milestone_hit L today r ms) = Some h \<longleftrightarrow>
        milestone_hit L today r ms = Inr (Some h)" for ms h
    using milestone_hit_Inr [of L today r ms] by auto
  then show ?thesis by (simp add: hs set_map_filter)
qed

lemma row_hits_append:
  "row_hits L today (xs @ ys) r =
     Inr (projr (row_hits L today xs r) @ projr (row_hits L today ys r))"
  by (simp add: row_hits_eq map_filter_append)

lemma row_hits_labels:
  assumes "row_hits L today sets r = Inr hs"
  shows "map h_label hs =
     map ms_label (filter (\<lambda>ms. projr (milestone_hit L today r ms) \<noteq> None) sets)"
proof -
  have hs: "hs = List.map_filter (\<lambda>ms. projr (milestone_hit L today r ms)) sets"
    using assms by (simp add: row_hits_eq)
  have lab: "h_label h = ms_label ms" if "projr (milestone_hit L today r ms) = Some h" for ms h
    using that milestone_hit_Inr [of L today r ms] milestone_hit_label [of L today r ms h]
    by auto
  show ?thesis
    unfolding hs by (induction sets) (auto simp: lab split: option.splits)
qed

lemma row_hits_labels_subseq:
  assumes "row_hits L today sets r = Inr hs"
  shows "subseq (map h_label (filter P hs)) (map ms_label sets)"
proof -
  have "subseq (map h_label (filter P hs)) (map h_label hs)"
    by (intro subseq_map) simp
  moreover have "subseq (map h_label hs) (map ms_label sets)"
    unfolding row_hits_labels [OF assms] by (intro subseq_map) simp
  ultimately show ?thesis by (rule subseq_order.trans)
qed

lemma row_result_Inr: "\<exists>ro. row_result L today p sets r = Inr ro"
  by (simp add: row_result_def Let_def row_hits_eq)

lemma row_result_Some_iff:
  "row_result L today p sets r = Inr (Some res) \<longleftrightarrow>
     (\<exists>hs. row_hits L today sets r = Inr hs \<and> hs \<noteq> [] \<and>
        res = \<lparr>project = py_or (cell_value r p) (PStr (ascii ''(Unnamed Project)'')),
               hits = sort_desc h_days hs\<rparr>)"
  by (auto simp: row_result_def Let_def row_hits_eq)

lemma row_results_eq:
  "row_results L today p sets rs =
     Inr (List.map_filter (\<lambda>r. projr (row_result L today p sets r)) rs)"
proof (induction rs)
  case Nil
  then show ?case by simp
next
  case (Cons r rs)
  obtain ro where ro: "row_result L today p sets r = Inr ro"
    using row_result_Inr by blast
  show ?case by (simp add: ro Cons split: option.splits)
qed

lemma find_unfold:
  "find_past_due_milestones L w sh =
     (case milestone_sets_of L sh of
        Inl e \<Rightarrow> Inl e
      | Inr sets \<Rightarrow>
          if sets = [] then
            Inl (RuntimeError (ascii
              ''No milestone columns found (expected M1 / M1 date / M1 Status pattern).''))
          else
            Inr (sort_desc first_days
                  (List.map_filter
                     (\<lambda>r. projr (row_result L (get_today_local w) (primary_of L sh) sets r))
                     (get_list (rows sh)))))"
  by (cases "build_column_maps L sh")
     (simp add: find_past_due_milestones_def milestone_sets_of_def norm_names_def
        primary_of_def Let_def row_results_eq split: sum.splits)

lemma find_results:
  assumes "find_past_due_milestones L w sh = Inr results" "milestone_sets_of L sh = Inr sets"
  shows "results = sort_desc first_days
           (List.map_filter
              (\<lambda>r. projr (row_result L (get_today_local w) (primary_of L sh) sets r))
              (get_list (rows sh)))"
    and "sets \<noteq> []"
  using assms by (auto simp: find_unfold split: if_splits)

lemma find_results_set:
  assumes "find_past_due_milestones L w sh = Inr results" "milestone_sets_of L sh = Inr sets"
  shows "set results =
           {res. \<exists>r\<in>set (get_list (rows sh)).
                   row_result L (get_today_local w) (primary_of L sh) sets r = Inr (Some res)}"
proof -
  have "projr (row_result L (get_today_local w) (primary_of L sh) sets r) = Some res \<longleftrightarrow>
        row_result L (get_today_local w) (primary_of L sh) sets r = Inr (Some res)" for r res
    using row_result_Inr [of L "get_today_local w" "primary_of L sh" sets r] by auto
  then show ?thesis by (simp add: find_results(1) [OF assms] set_map_filter)
qed

lemma build_column_maps_rows [simp]:
  "build_column_maps L (sh\<lparr>rows := rs\<rparr>) = build_column_maps L sh"
  by (simp add: build_column_maps_def)

lemma milestone_sets_of_rows [simp]:
  "milestone_sets_of L (sh\<lparr>rows := rs\<rparr>) = milestone_sets_of L sh"
  by (simp add: milestone_sets_of_def norm_names_def)

lemma find_error_iff:
  "isl (find_past_due_milestones L w sh) \<longleftrightarrow>
     (case milestone_sets_of L sh of Inl e \<Rightarrow> True | Inr sets \<Rightarrow> sets = [])"
  by (simp add: find_unfold split: sum.splits)

lemma replace_char_append:
  "replace_char c new (s @ t) = replace_char c new s @ replace_char c new t"
  by (simp add: replace_char_def)

lemma sorted_desc_head:
  assumes "sorted_wrt (\<lambda>a b. f b \<le> f a) xs" "y \<in> set xs"
  shows "(f y :: int) \<le> f (hd xs)"
  using assms by (cases xs) auto

lemma first_days_hd: "hits res \<noteq> [] \<Longrightarrow> first_days res = h_days (hd (hits res))"
  by (cases "hits res") (simp_all add: first_days_def)

lemma lstrip_non_space: "\<not> is_space c \<Longrightarrow> lstrip (c # s) = c # s"
  by (simp add: lstrip_def)

lemma strip_non_space: "\<not> is_space c \<Longrightarrow> strip (c # s) = rstrip (c # s)"
  by (simp add: strip_def lstrip_non_space)

lemma join_Cons_Cons: "join sep ((c # x) # y # ys) = c # (x @ sep @ join sep (y # ys))"
  by simp


section \<open>Facts about schema detection\<close>

lemma newline_is_space: "is_space 10"
  by (simp add: is_space_def)

lemma trimmed_no_newline:
  assumes "strip k = k"
  shows "k \<noteq> x @ [10]"
proof
  assume k: "k = x @ [10]"
  then have "strip k \<noteq> []" using assms by simp
  then have "\<not> is_space (last (strip k))" by (rule strip_last)
  then show False using assms k newline_is_space by simp
qed

lemma base_name_split:
  "is_base_name L k \<longleftrightarrow> (\<exists>n. k = 109 # n \<and> n \<noteq> [] \<and> list_all (is_decimal L) n)"
  by (auto simp: is_base_name_def split: list.splits)

lemma base_re_match_trimmed:
  assumes "strip k = k"
  shows "base_re_match L k = (if is_base_name L k then Some (tl k) else None)"
proof (cases "is_base_name L k")
  case True
  then obtain n where k: "k = 109 # n" and n: "n \<noteq> []" "list_all (is_decimal L) n"
    unfolding base_name_split by blast
  have all: "\<forall>x\<in>set n. is_decimal L x" using n(2) by (simp add: list_all_iff)
  have tw: "takeWhile (is_decimal L) n = n" using all by (simp add: takeWhile_eq_all_conv)
  have dw: "dropWhile (is_decimal L) n = []" using all by simp
  have "base_re_match L k = Some n"
    unfolding base_re_match_def k using n(1) by (simp only: list.case tw dw) simp
  then show ?thesis using True by (simp add: k)
next
  case False
  have "base_re_match L k = None"
  proof (rule ccontr)
    assume "base_re_match L k \<noteq> None"
    then obtain n where m: "base_re_match L k = Some n" by auto
    then obtain c r where k: "k = c # r"
      by (cases k) (auto simp: base_re_match_def)
    from m have c: "c = 109" and ne: "takeWhile (is_decimal L) r \<noteq> []"
      and rest: "dropWhile (is_decimal L) r = [] \<or> dropWhile (is_decimal L) r = [10]"
      by (auto simp: base_re_match_def k split: if_splits)
    have td: "takeWhile (is_decimal L) r @ dropWhile (is_decimal L) r = r" by simp
    have "dropWhile (is_decimal L) r \<noteq> [10]"
    proof
      assume d: "dropWhile (is_decimal L) r = [10]"
      have "takeWhile (is_decimal L) r @ [10] = r" using td unfolding d .
      then have "k = (c # takeWhile (is_decimal L) r) @ [10]" by (simp add: k)
      then show False using trimmed_no_newline [OF assms] by blast
    qed
    then have "dropWhile (is_decimal L) r = []" using rest by blast
    then have all: "list_all (is_decimal L) r" by (simp add: list_all_iff)
    have "r \<noteq> []" using ne by auto
    then have "is_base_name L k" using all c by (simp add: is_base_name_def k)
    then show False using False by simp
  qed
  then show ?thesis using False by simp
qed

lemma map_of_in_keys: "(\<exists>y. map_of d k = Some y) \<longleftrightarrow> k \<in> fst ` set d"
  using map_of_eq_None_iff [of d k] by auto

lemma detect_loop_trimmed:
  assumes "\<forall>k\<in>set ks. strip k = k" "set ks \<subseteq> fst ` set d"
  shows "detect_loop L d ks = Inr (map (set_for d) (filter (has_companions L d) ks))"
  using assms
proof (induction ks)
  case Nil
  then show ?case by simp
next
  case (Cons k ks)
  have ih: "detect_loop L d ks = Inr (map (set_for d) (filter (has_companions L d) ks))"
    using Cons by simp
  have tr: "strip k = k" and key: "k \<in> fst ` set d" using Cons.prems by simp_all
  show ?case
  proof (cases "is_base_name L k")
    case False
    then have "\<not> has_companions L d k" by (simp add: has_companions_def)
    then show ?thesis
      using False by (simp add: base_re_match_trimmed [OF tr] ih)
  next
    case True
    then obtain n where kn: "k = 109 # n"
      unfolding base_name_split by blast
    have app: "109 # tl k = k" "109 # tl k @ x = k @ x" for x
      by (simp_all add: kn)
    obtain tid where tid: "map_of d k = Some tid"
      using key map_of_in_keys [of d k] by auto
    show ?thesis
    proof (cases "has_companions L d k")
      case hc: True
      then have "map_of d (k @ ascii '' date'') \<noteq> None" "map_of d (k @ ascii '' status'') \<noteq> None"
        by (simp_all add: has_companions_def map_of_eq_None_iff)
      then show ?thesis
        using True hc
        by (simp add: base_re_match_trimmed [OF tr] app tid ih set_for_def)
    next
      case hc: False
      then have "\<not> (map_of d (k @ ascii '' date'') \<noteq> None \<and>
                  map_of d (k @ ascii '' status'') \<noteq> None)"
        using True by (simp add: has_companions_def map_of_eq_None_iff)
      then show ?thesis
        using True hc
        by (auto simp: base_re_match_trimmed [OF tr] app ih)
    qed
  qed
qed

lemma label_keys_eq:
  "label_keys L sets =
     (if \<exists>x\<in>set sets. exceeds_limit L (drop 1 (ms_label x)) then Inl ValueError
      else Inr (map (label_number L) sets))"
  by (induction sets) (auto simp: py_int_def exceeds_limit_def label_number_def)

lemma insort_key_pairs:
  "insort_key fst (f x, x) (map (\<lambda>y. (f y, y)) ys) =
     map (\<lambda>y. (f y, y)) (insort_key f x ys)"
  by (induction ys) simp_all

lemma sort_key_pairs:
  "sort_key fst (map (\<lambda>y. (f y, y)) xs) = map (\<lambda>y. (f y, y)) (sort_key f xs)"
  by (induction xs) (simp_all add: insort_key_pairs)

lemma sort_by_computed_keys:
  "map snd (sort_key fst (zip (map f xs) xs)) = sort_key f xs"
proof -
  have "zip (map f xs) xs = map (\<lambda>y. (f y, y)) xs"
    by (induction xs) simp_all
  then show ?thesis by (simp add: sort_key_pairs comp_def)
qed

lemma detect_milestone_sets_trimmed:
  assumes "\<forall>k\<in>set (map fst d). strip k = k"
  shows "detect_milestone_sets L d =
           (if \<exists>k\<in>set (map fst d). has_companions L d k \<and> exceeds_limit L (tl k)
            then Inl ValueError
            else Inr (sort_key (label_number L)
                       (map (set_for d) (filter (has_companions L d) (map fst d)))))"
proof -
  have loop: "detect_loop L d (map fst d) =
          Inr (map (set_for d) (filter (has_companions L d) (map fst d)))"
    using assms by (intro detect_loop_trimmed) auto
  have ex: "(\<exists>x\<in>set (map (set_for d) (filter (has_companions L d) (map fst d))).
               exceeds_limit L (drop 1 (ms_label x))) \<longleftrightarrow>
            (\<exists>k\<in>set (map fst d). has_companions L d k \<and> exceeds_limit L (tl k))"
    by (auto simp: set_for_def)
  let ?cands = "map (set_for d) (filter (has_companions L d) (map fst d))"
  show ?thesis
  proof (cases "\<exists>k\<in>set (map fst d). has_companions L d k \<and> exceeds_limit L (tl k)")
    case True
    then have "\<exists>x\<in>set ?cands. exceeds_limit L (drop 1 (ms_label x))"
      unfolding ex .
    then have "label_keys L ?cands = Inl ValueError"
      by (simp only: label_keys_eq if_True)
    then show ?thesis
      using True by (simp only: detect_milestone_sets_def loop sum.case if_True)
  next
    case False
    then have "\<not> (\<exists>x\<in>set ?cands. exceeds_limit L (drop 1 (ms_label x)))"
      unfolding ex .
    then have "label_keys L ?cands = Inr (map (label_number L) ?cands)"
      by (simp only: label_keys_eq if_False)
    then have "detect_milestone_sets L d =
        Inr (map snd (sort_key fst (zip (map (label_number L) ?cands) ?cands)))"
      by (simp only: detect_milestone_sets_def loop sum.case)
    then show ?thesis
      using False by (simp only: sort_by_computed_keys if_False)
  qed
qed

lemma label_number_set_for: "label_number L (set_for d k) = digits_value L (tl k)"
  by (simp add: label_number_def set_for_def)

lemma base_name_label_inj:
  assumes "is_base_name L k" "is_base_name L k'"
    "ms_label (set_for d k) = ms_label (set_for d k')"
  shows "k = k'"
proof -
  obtain n n' where k: "k = 109 # n" "k' = 109 # n'"
    using assms(1,2) unfolding base_name_split by blast
  have "tl k = tl k'" using assms(3) by (simp add: set_for_def)
  then show ?thesis by (simp add: k)
qed

lemma column_step_trimmed:
  assumes "lower_keeps_trimmed L" "\<forall>k\<in>fst ` set (fst (snd acc)). strip k = k"
  shows "\<forall>k\<in>fst ` set (fst (snd (column_step L acc c))). strip k = k"
proof -
  obtain t n p where acc: "acc = (t, n, p)" by (cases acc) auto
  have "strip (strip (col_title c)) = strip (col_title c)" by (rule strip_idem)
  then have "strip (str_lower L (strip (col_title c))) = str_lower L (strip (col_title c))"
    using assms(1) unfolding lower_keeps_trimmed_def by blast
  then show ?thesis
    using assms(2) by (simp add: acc column_step_def AList.dom_update)
qed

lemma foldl_column_step_trimmed:
  assumes "lower_keeps_trimmed L" "\<forall>k\<in>fst ` set (fst (snd acc)). strip k = k"
  shows "\<forall>k\<in>fst ` set (fst (snd (foldl (column_step L) acc cs))). strip k = k"
  using assms(2)
proof (induction cs arbitrary: acc)
  case Nil
  then show ?case by simp
next
  case (Cons c cs)
  show ?case
    unfolding foldl_Cons
    by (rule Cons.IH) (rule column_step_trimmed [OF assms(1) Cons.prems])
qed

lemma norm_names_trimmed:
  assumes "lower_keeps_trimmed L"
  shows "\<forall>k\<in>set (map fst (norm_names L sh)). strip k = k"
proof -
  have "\<forall>k\<in>fst ` set (fst (snd (foldl (column_step L) ([], [], None) (get_list (columns sh))))).
          strip k = k"
    by (rule foldl_column_step_trimmed [OF assms]) simp
  then show ?thesis by (simp add: build_column_maps_def norm_names_def)
qed

lemma milestone_sets_of_eq:
  assumes "lower_keeps_trimmed L"
  shows "milestone_sets_of L sh =
     (if \<exists>k\<in>set (map fst (norm_names L sh)).
           has_companions L (norm_names L sh) k \<and> exceeds_limit L (tl k)
      then Inl ValueError
      else Inr (sort_key (label_number L)
                 (map (set_for (norm_names L sh))
                    (filter (has_companions L (norm_names L sh))
                       (map fst (norm_names L sh))))))"
  unfolding milestone_sets_of_def
  by (rule detect_milestone_sets_trimmed [OF norm_names_trimmed [OF assms]])


section \<open>Facts about the long name\<close>

lemma long_name_facts:
  "long_name \<noteq> []" "hd long_name = 109" "tl long_name = replicate 4301 49"
  "map lower_cp long_name = long_name" "int (length (tl long_name)) = 4301"
  by (simp_all add: long_name_def lower_cp_def)

lemma ascii_date_status:
  "ascii '' date'' = [32, 100, 97, 116, 101]"
  "ascii '' status'' = [32, 115, 116, 97, 116, 117, 115]"
  by (simp_all add: ascii_def)

lemma long_keys_trimmed:
  "strip long_name = long_name"
  "strip (long_name @ ascii '' date'') = long_name @ ascii '' date''"
  "strip (long_name @ ascii '' status'') = long_name @ ascii '' status''"
  by (rule strip_fixed; simp add: long_name_def ascii_date_status is_space_def)+

lemma long_name_base: "is_base_name example_lib long_name"
  by (simp add: is_base_name_def long_name_def list_all_iff is_decimal_def example_lib_def
      ascii_decimal_def)

lemma long_dict_companions: "has_companions example_lib long_dict long_name"
  by (simp add: has_companions_def long_name_base long_dict_def)

lemma long_name_exceeds: "exceeds_limit example_lib (tl long_name)"
  by (simp add: exceeds_limit_def long_name_facts example_lib_def)

lemma long_dict_trimmed: "\<forall>k\<in>set (map fst long_dict). strip k = k"
  by (simp add: long_dict_def long_keys_trimmed)

lemma long_dict_detect: "detect_milestone_sets example_lib long_dict = Inl ValueError"
proof -
  have "\<exists>k\<in>set (map fst long_dict).
          has_companions example_lib long_dict k \<and> exceeds_limit example_lib (tl k)"
    using long_dict_companions long_name_exceeds by (auto simp: long_dict_def)
  then show ?thesis
    unfolding detect_milestone_sets_trimmed [OF long_dict_trimmed] by simp
qed

lemma long_sheet_names: "norm_names example_lib long_sheet = long_dict"
proof -
  have low: "str_lower example_lib = map lower_cp" by (simp add: example_lib_def)
  have l: "map lower_cp (ascii '' date'') = ascii '' date''"
    "map lower_cp (ascii '' status'') = ascii '' status''"
    by (simp_all add: ascii_date_status lower_cp_def)
  have ne: "ascii '' date'' \<noteq> []" "ascii '' status'' \<noteq> []"
    "ascii '' status'' \<noteq> ascii '' date''" "ascii '' date'' \<noteq> ascii '' status''"
    by (simp_all add: ascii_date_status)
  show ?thesis
    by (simp add: norm_names_def build_column_maps_def long_sheet_def get_list_def
        column_step_def low long_keys_trimmed long_name_facts l ne long_dict_def)
qed


section \<open>Claims\<close>

subsection \<open>The cell reader\<close>

text \<open>
  Claim C10. \<open>cell_value\<close> looks at the first cell, in the order of the row, whose
  \<open>columnId\<close> equals the column identifier. If that cell has the key \<open>value\<close>, what the key
  holds is returned, also when it is \<open>null\<close>, and \<open>displayValue\<close> is not read;
  \<open>displayValue\<close> is returned only when the key \<open>value\<close> is absent; the result is \<open>None\<close>
  when that cell has neither key and when no cell matches.
\<close>

theorem cell_value_first_match:
  "cell_value r cid =
     (case List.find (\<lambda>c. c_columnId c = cid) (get_list (cells r)) of
        None \<Rightarrow> PNone
      | Some c \<Rightarrow>
          (case c_value c of
             Some v \<Rightarrow> v
           | None \<Rightarrow> (case c_displayValue c of Some d \<Rightarrow> d | None \<Rightarrow> PNone)))"
proof -
  have "cell_scan cs cid =
     (case List.find (\<lambda>c. c_columnId c = cid) cs of
        None \<Rightarrow> PNone
      | Some c \<Rightarrow>
          (case c_value c of
             Some v \<Rightarrow> v
           | None \<Rightarrow> (case c_displayValue c of Some d \<Rightarrow> d | None \<Rightarrow> PNone)))" for cs
    by (induction cs) simp_all
  then show ?thesis by (simp add: cell_value_def)
qed

theorem cell_value_first_match_witness:
  "cell_value
     \<lparr>cells = Some
        [\<lparr>c_columnId = Some 7, c_value = Some (PStr (ascii ''a'')), c_displayValue = None\<rparr>,
         \<lparr>c_columnId = Some 8, c_value = Some PNone,
            c_displayValue = Some (PStr (ascii ''shown''))\<rparr>,
         \<lparr>c_columnId = Some 8, c_value = Some (PStr (ascii ''later'')), c_displayValue = None\<rparr>,
         \<lparr>c_columnId = Some 9, c_value = None,
            c_displayValue = Some (PStr (ascii ''only shown''))\<rparr>,
         \<lparr>c_columnId = Some 10, c_value = None, c_displayValue = None\<rparr>]\<rparr>
     (Some 8) = PNone"
  by (simp add: cell_value_first_match get_list_def)


subsection \<open>The past-due rule\<close>

text \<open>
  Claim C1. For every row and every milestone set, the body of the loop raises no
  exception, and it produces a hit if and only if the date cell parses to a date, that
  date is strictly before today, and the normalised status is not one of the completed
  values. The hit carries the number of days from the due date to today, which is at
  least 1. The hits in the results of the evaluator are the hits so produced for the
  rows of the document and the detected milestone sets, and no others.
\<close>

theorem past_due_hits:
  assumes "valid_date today"
  shows
    "(\<exists>ho. milestone_hit L today r ms = Inr ho) \<and>
     ((\<exists>h. milestone_hit L today r ms = Inr (Some h)) \<longleftrightarrow>
        (\<exists>d. parse_date L (cell_value r (Some (date_id ms))) = Inr (Some d) \<and>
             date_lt d today \<and>
             normalize_status L (cell_value r (Some (status_id ms))) \<notin> COMPLETED_VALUES)) \<and>
     (\<forall>h d. milestone_hit L today r ms = Inr (Some h) \<and>
            parse_date L (cell_value r (Some (date_id ms))) = Inr (Some d) \<longrightarrow>
            h_days h = date_diff_days today d \<and> 1 \<le> h_days h) \<and>
     (today = get_today_local w \<and> find_past_due_milestones L w sh = Inr results \<and>
      milestone_sets_of L sh = Inr sets \<longrightarrow>
        (\<forall>res\<in>set results. \<forall>h\<in>set (hits res).
           1 \<le> h_days h \<and>
           (\<exists>r'\<in>set (get_list (rows sh)). \<exists>ms'\<in>set sets.
              milestone_hit L today r' ms' = Inr (Some h))) \<and>
        (\<forall>r'\<in>set (get_list (rows sh)). \<forall>ms'\<in>set sets. \<forall>h.
           milestone_hit L today r' ms' = Inr (Some h) \<longrightarrow>
             (\<exists>res\<in>set results. h \<in> set (hits res))))"
proof (intro conjI)
  show "\<exists>ho. milestone_hit L today r ms = Inr ho" by (rule milestone_hit_Inr)
next
  show "(\<exists>h. milestone_hit L today r ms = Inr (Some h)) \<longleftrightarrow>
        (\<exists>d. parse_date L (cell_value r (Some (date_id ms))) = Inr (Some d) \<and>
             date_lt d today \<and>
             normalize_status L (cell_value r (Some (status_id ms))) \<notin> COMPLETED_VALUES)"
    unfolding milestone_hit_Some_iff by blast
next
  have pos: "1 \<le> h_days h" if "milestone_hit L today r' ms' = Inr (Some h)" for r' ms' h
  proof -
    from that obtain d where d: "parse_date L (cell_value r' (Some (date_id ms'))) = Inr (Some d)"
      "date_lt d today" "h_days h = date_diff_days today d"
      unfolding milestone_hit_Some_iff by auto
    show ?thesis
      using overdue_positive [OF assms d(1) d(2)] d(3) by simp
  qed
  show "\<forall>h d. milestone_hit L today r ms = Inr (Some h) \<and>
            parse_date L (cell_value r (Some (date_id ms))) = Inr (Some d) \<longrightarrow>
            h_days h = date_diff_days today d \<and> 1 \<le> h_days h"
  proof (intro allI impI, elim conjE)
    fix h d
    assume mh: "milestone_hit L today r ms = Inr (Some h)"
      and pd: "parse_date L (cell_value r (Some (date_id ms))) = Inr (Some d)"
    from mh obtain d' where "parse_date L (cell_value r (Some (date_id ms))) = Inr (Some d')"
      "h_days h = date_diff_days today d'"
      unfolding milestone_hit_Some_iff by auto
    then have "h_days h = date_diff_days today d" using pd by simp
    then show "h_days h = date_diff_days today d \<and> 1 \<le> h_days h"
      using pos [OF mh] by simp
  qed
  show "today = get_today_local w \<and> find_past_due_milestones L w sh = Inr results \<and>
      milestone_sets_of L sh = Inr sets \<longrightarrow>
        (\<forall>res\<in>set results. \<forall>h\<in>set (hits res).
           1 \<le> h_days h \<and>
           (\<exists>r'\<in>set (get_list (rows sh)). \<exists>ms'\<in>set sets.
              milestone_hit L today r' ms' = Inr (Some h))) \<and>
        (\<forall>r'\<in>set (get_list (rows sh)). \<forall>ms'\<in>set sets. \<forall>h.
           milestone_hit L today r' ms' = Inr (Some h) \<longrightarrow>
             (\<exists>res\<in>set results. h \<in> set (hits res)))"
  proof (intro impI, elim conjE, intro conjI ballI allI impI)
    fix res h
    assume t: "today = get_today_local w"
      and f: "find_past_due_milestones L w sh = Inr results"
      and s: "milestone_sets_of L sh = Inr sets"
      and res: "res \<in> set results" and h: "h \<in> set (hits res)"
    from res obtain r' where r': "r' \<in> set (get_list (rows sh))"
      and rr: "row_result L today (primary_of L sh) sets r' = Inr (Some res)"
      unfolding find_results_set [OF f s] t by auto
    from rr obtain hs where hs: "row_hits L today sets r' = Inr hs"
      and hr: "hits res = sort_desc h_days hs"
      unfolding row_result_Some_iff by auto
    have "h \<in> set hs" using h by (simp add: hr)
    then obtain ms' where ms': "ms' \<in> set sets" "milestone_hit L today r' ms' = Inr (Some h)"
      unfolding set_row_hits [OF hs] by auto
    show "1 \<le> h_days h" using pos [OF ms'(2)] .
    show "\<exists>r'\<in>set (get_list (rows sh)). \<exists>ms'\<in>set sets.
            milestone_hit L today r' ms' = Inr (Some h)"
      using r' ms' by blast
  next
    fix r' ms' h
    assume t: "today = get_today_local w"
      and f: "find_past_due_milestones L w sh = Inr results"
      and s: "milestone_sets_of L sh = Inr sets"
      and r': "r' \<in> set (get_list (rows sh))" and ms': "ms' \<in> set sets"
      and mh: "milestone_hit L today r' ms' = Inr (Some h)"
    obtain hs where hs: "row_hits L today sets r' = Inr hs"
      by (simp add: row_hits_eq)
    have hin: "h \<in> set hs"
      unfolding set_row_hits [OF hs] using ms' mh by auto
    then have ne: "hs \<noteq> []" by auto
    define res where "res =
      \<lparr>project = py_or (cell_value r' (primary_of L sh)) (PStr (ascii ''(Unnamed Project)'')),
       hits = sort_desc h_days hs\<rparr>"
    have "row_result L today (primary_of L sh) sets r' = Inr (Some res)"
      unfolding row_result_Some_iff using hs ne by (simp add: res_def)
    then have "res \<in> set results"
      unfolding find_results_set [OF f s] t using r' by auto
    moreover have "h \<in> set (hits res)" using hin by (simp add: res_def)
    ultimately show "\<exists>res\<in>set results. h \<in> set (hits res)" by blast
  qed
qed

theorem past_due_hits_witness:
  "valid_date jan_10 \<and>
   find_past_due_milestones example_lib (clock_at jan_10) alpha_sheet = Inr [alpha_result] \<and>
   milestone_sets_of example_lib alpha_sheet = Inr [m1_set] \<and>
   milestone_hit example_lib jan_10 alpha_row m1_set = Inr (Some kickoff_hit) \<and>
   1 \<le> h_days kickoff_hit"
proof -
  have v: "valid_date jan_10" by code_simp
  have t: "jan_10 = get_today_local (clock_at jan_10)" by code_simp
  have f: "find_past_due_milestones example_lib (clock_at jan_10) alpha_sheet =
           Inr [alpha_result]"
    by code_simp
  have s: "milestone_sets_of example_lib alpha_sheet = Inr [m1_set]" by code_simp
  have m: "milestone_hit example_lib jan_10 alpha_row m1_set = Inr (Some kickoff_hit)"
    by code_simp
  note T = past_due_hits [OF v, where L = example_lib and w = "clock_at jan_10"
      and sh = alpha_sheet and results = "[alpha_result]" and sets = "[m1_set]"]
  from T t f s have "\<forall>res\<in>set [alpha_result]. \<forall>h\<in>set (hits res). 1 \<le> h_days h"
    by blast
  then have "1 \<le> h_days kickoff_hit" by (simp add: alpha_result_def)
  with v f s m show ?thesis by blast
qed


subsection \<open>The status rule\<close>

text \<open>
  The status of a text whose trimmed form is ASCII, under a library that lower-cases
  ASCII as Python does.
\<close>

lemma normalize_status_ascii:
  assumes "lower_on_ascii L" "list_all (\<lambda>c. 0 \<le> c \<and> c < 128) (strip s)"
  shows "normalize_status L (PStr s) = map lower_cp (strip s)"
  using assms by (simp add: normalize_status_def lower_on_ascii_def)

lemma lower_cp_ascii: "0 \<le> c \<and> c < 128 \<Longrightarrow> 0 \<le> lower_cp c \<and> lower_cp c < 128"
  by (simp add: lower_cp_def)

lemma milestone_hit_completed:
  assumes "normalize_status L (cell_value r (Some (status_id ms))) \<in> COMPLETED_VALUES"
  shows "milestone_hit L today r ms = Inr None"
  unfolding milestone_hit_None_iff using assms by blast

lemma milestone_hit_not_completed:
  assumes "normalize_status L (cell_value r (Some (status_id ms))) \<notin> COMPLETED_VALUES"
  shows "(\<exists>h. milestone_hit L today r ms = Inr (Some h)) \<longleftrightarrow>
         (\<exists>d. parse_date L (cell_value r (Some (date_id ms))) = Inr (Some d) \<and> date_lt d today)"
  unfolding milestone_hit_Some_iff using assms by blast

text \<open>
  Claim C2. The status of a cell is the text of its value, trimmed of whitespace at both
  ends and lower-cased, and the empty text for a missing value; so the comparison with
  the completed values \<open>completed\<close>, \<open>complete\<close>, \<open>done\<close>, \<open>closed\<close> and \<open>100%\<close> ignores
  whitespace around the text, whatever the library, and the case of ASCII letters,
  for every library that lower-cases ASCII as Python does. A status cell holding
  \<open>" Completed "\<close>, \<open>"COMPLETE"\<close>, \<open>"done"\<close> or \<open>"100%"\<close> suppresses the hit of its milestone;
  a status cell that is missing, or holds the empty text or \<open>"in progress"\<close>, leaves the
  hit to the due date alone.
\<close>

theorem normalize_status_completed:
  assumes "lower_on_ascii L"
  shows
    "normalize_status L PNone = [] \<and>
     (v \<noteq> PNone \<longrightarrow> normalize_status L v = str_lower L (strip (py_str v))) \<and>
     (list_all is_space a \<and> list_all is_space b \<longrightarrow>
        normalize_status L (PStr (a @ s @ b)) = normalize_status L (PStr s)) \<and>
     (list_all (\<lambda>c. 0 \<le> c \<and> c < 128) s \<longrightarrow>
        normalize_status L (PStr (map lower_cp s)) = normalize_status L (PStr s)) \<and>
     COMPLETED_VALUES =
       {ascii ''completed'', ascii ''complete'', ascii ''done'', ascii ''closed'',
        ascii ''100%''} \<and>
     (cell_value r (Some (status_id ms)) \<in>
        {PStr (ascii '' Completed ''), PStr (ascii ''COMPLETE''), PStr (ascii ''done''),
         PStr (ascii ''100%'')} \<longrightarrow>
        milestone_hit L today r ms = Inr None) \<and>
     (cell_value r (Some (status_id ms)) \<in>
        {PNone, PStr [], PStr (ascii ''in progress'')} \<longrightarrow>
        ((\<exists>h. milestone_hit L today r ms = Inr (Some h)) \<longleftrightarrow>
         (\<exists>d. parse_date L (cell_value r (Some (date_id ms))) = Inr (Some d) \<and>
              date_lt d today)))"
proof (intro conjI impI)
  show "normalize_status L PNone = []" by (simp add: normalize_status_def)
next
  assume "v \<noteq> PNone"
  then show "normalize_status L v = str_lower L (strip (py_str v))"
    by (simp add: normalize_status_def)
next
  assume "list_all is_space a \<and> list_all is_space b"
  then show "normalize_status L (PStr (a @ s @ b)) = normalize_status L (PStr s)"
    by (simp add: normalize_status_def strip_pad)
next
  assume a: "list_all (\<lambda>c. 0 \<le> c \<and> c < 128) s"
  have sub: "set (strip s) \<subseteq> set s" by (rule strip_subset)
  have a1: "list_all (\<lambda>c. 0 \<le> c \<and> c < 128) (strip s)"
    using a sub unfolding list_all_iff by blast
  have sm: "strip (map lower_cp s) = map lower_cp (strip s)"
    by (rule strip_map) simp
  have a2: "list_all (\<lambda>c. 0 \<le> c \<and> c < 128) (strip (map lower_cp s))"
    unfolding sm using a1 lower_cp_ascii by (simp add: list_all_iff)
  have "normalize_status L (PStr (map lower_cp s)) = map lower_cp (strip (map lower_cp s))"
    by (rule normalize_status_ascii [OF assms a2])
  also have "\<dots> = map lower_cp (strip s)" by (simp add: sm)
  also have "\<dots> = normalize_status L (PStr s)"
    by (rule normalize_status_ascii [OF assms a1, symmetric])
  finally show "normalize_status L (PStr (map lower_cp s)) = normalize_status L (PStr s)" .
next
  show "COMPLETED_VALUES =
       {ascii ''completed'', ascii ''complete'', ascii ''done'', ascii ''closed'',
        ascii ''100%''}"
    by (simp add: COMPLETED_VALUES_def)
next
  assume c: "cell_value r (Some (status_id ms)) \<in>
        {PStr (ascii '' Completed ''), PStr (ascii ''COMPLETE''), PStr (ascii ''done''),
         PStr (ascii ''100%'')}"
  have a: "list_all (\<lambda>c. 0 \<le> c \<and> c < 128) (strip (ascii '' Completed ''))"
    "list_all (\<lambda>c. 0 \<le> c \<and> c < 128) (strip (ascii ''COMPLETE''))"
    "list_all (\<lambda>c. 0 \<le> c \<and> c < 128) (strip (ascii ''done''))"
    "list_all (\<lambda>c. 0 \<le> c \<and> c < 128) (strip (ascii ''100%''))"
    by code_simp+
  have m: "map lower_cp (strip (ascii '' Completed '')) = ascii ''completed''"
    "map lower_cp (strip (ascii ''COMPLETE'')) = ascii ''complete''"
    "map lower_cp (strip (ascii ''done'')) = ascii ''done''"
    "map lower_cp (strip (ascii ''100%'')) = ascii ''100%''"
    by code_simp+
  have "normalize_status L (cell_value r (Some (status_id ms))) \<in>
          {ascii ''completed'', ascii ''complete'', ascii ''done'', ascii ''100%''}"
    using c a m by (auto simp: normalize_status_ascii [OF assms])
  then have "normalize_status L (cell_value r (Some (status_id ms))) \<in> COMPLETED_VALUES"
    unfolding COMPLETED_VALUES_def by blast
  then show "milestone_hit L today r ms = Inr None" by (rule milestone_hit_completed)
next
  assume c: "cell_value r (Some (status_id ms)) \<in>
        {PNone, PStr [], PStr (ascii ''in progress'')}"
  have a: "list_all (\<lambda>c. 0 \<le> c \<and> c < 128) (strip [])"
    "list_all (\<lambda>c. 0 \<le> c \<and> c < 128) (strip (ascii ''in progress''))"
    by code_simp+
  have m: "map lower_cp (strip []) = []"
    "map lower_cp (strip (ascii ''in progress'')) = ascii ''in progress''"
    by code_simp+
  have n: "[] \<notin> COMPLETED_VALUES" "ascii ''in progress'' \<notin> COMPLETED_VALUES"
    by code_simp+
  have n1: "normalize_status L PNone = []" by (simp add: normalize_status_def)
  have n2: "normalize_status L (PStr []) = []"
    using normalize_status_ascii [OF assms a(1)] m(1) by simp
  have n3: "normalize_status L (PStr (ascii ''in progress'')) = ascii ''in progress''"
    using normalize_status_ascii [OF assms a(2)] m(2) by simp
  have "normalize_status L (cell_value r (Some (status_id ms))) \<in> {[], ascii ''in progress''}"
    using c n1 n2 n3 by auto
  then have "normalize_status L (cell_value r (Some (status_id ms))) \<notin> COMPLETED_VALUES"
    using n by auto
  then show "(\<exists>h. milestone_hit L today r ms = Inr (Some h)) \<longleftrightarrow>
         (\<exists>d. parse_date L (cell_value r (Some (date_id ms))) = Inr (Some d) \<and>
              date_lt d today)"
    by (rule milestone_hit_not_completed)
qed

theorem normalize_status_completed_witness:
  "lower_on_ascii example_lib \<and>
   cell_value (project_row (PStr (ascii ''Alpha'')) (PStr (ascii ''2020-01-01''))
                 (PStr (ascii '' Completed ''))) (Some (status_id m1_set)) =
     PStr (ascii '' Completed '') \<and>
   milestone_hit example_lib jan_10
     (project_row (PStr (ascii ''Alpha'')) (PStr (ascii ''2020-01-01''))
        (PStr (ascii '' Completed ''))) m1_set = Inr None \<and>
   normalize_status example_lib (PStr ([160, 9] @ ascii ''Done'' @ [12288, 10])) =
     ascii ''done'' \<and>
   normalize_status example_lib (PStr (ascii ''CLOSED'')) = ascii ''closed'' \<and>
   milestone_hit example_lib jan_10
     (project_row (PStr (ascii ''Alpha'')) (PStr (ascii ''2020-01-01''))
        (PStr ([160] @ ascii ''Completed'' @ [160]))) m1_set = Inr None \<and>
   milestone_hit example_lib jan_10
     (project_row (PStr (ascii ''Alpha'')) (PStr (ascii ''2020-01-01''))
        (PStr (ascii ''In Progress''))) m1_set =
     Inr (Some (kickoff_hit\<lparr>h_status := PStr (ascii ''In Progress'')\<rparr>)) \<and>
   milestone_hit example_lib jan_10
     (project_row (PStr (ascii ''Alpha'')) (PStr (ascii ''2020-01-01''))
        (PStr (ascii ''Com pleted''))) m1_set =
     Inr (Some (kickoff_hit\<lparr>h_status := PStr (ascii ''Com pleted'')\<rparr>))"
proof -
  let ?r = "project_row (PStr (ascii ''Alpha'')) (PStr (ascii ''2020-01-01''))
              (PStr (ascii '' Completed ''))"
  have l: "lower_on_ascii example_lib" by (rule example_lib_lower_on_ascii)
  have c: "cell_value ?r (Some (status_id m1_set)) = PStr (ascii '' Completed '')"
    by code_simp
  note T = normalize_status_completed [OF l, where r = ?r and ms = m1_set and today = jan_10
      and a = "[160, 9]" and b = "[12288, 10]" and s = "ascii ''Done''"]
  have sp: "list_all is_space [160, 9] \<and> list_all is_space [12288, 10]" by code_simp
  from T c have h: "milestone_hit example_lib jan_10 ?r m1_set = Inr None" by simp
  from T sp have "normalize_status example_lib (PStr ([160, 9] @ ascii ''Done'' @ [12288, 10])) =
      normalize_status example_lib (PStr (ascii ''Done''))"
    by blast
  moreover have "normalize_status example_lib (PStr (ascii ''Done'')) = ascii ''done''"
    by code_simp
  ultimately have p: "normalize_status example_lib
      (PStr ([160, 9] @ ascii ''Done'' @ [12288, 10])) = ascii ''done''"
    by simp
  have e1: "normalize_status example_lib (PStr (ascii ''CLOSED'')) = ascii ''closed''"
    by code_simp
  have e2: "milestone_hit example_lib jan_10
     (project_row (PStr (ascii ''Alpha'')) (PStr (ascii ''2020-01-01''))
        (PStr ([160] @ ascii ''Completed'' @ [160]))) m1_set = Inr None"
    by code_simp
  have e3: "milestone_hit example_lib jan_10
     (project_row (PStr (ascii ''Alpha'')) (PStr (ascii ''2020-01-01''))
        (PStr (ascii ''In Progress''))) m1_set =
     Inr (Some (kickoff_hit\<lparr>h_status := PStr (ascii ''In Progress'')\<rparr>))"
    by code_simp
  have e4: "milestone_hit example_lib jan_10
     (project_row (PStr (ascii ''Alpha'')) (PStr (ascii ''2020-01-01''))
        (PStr (ascii ''Com pleted''))) m1_set =
     Inr (Some (kickoff_hit\<lparr>h_status := PStr (ascii ''Com pleted'')\<rparr>))"
    by code_simp
  from l c h p e1 e2 e3 e4 show ?thesis by blast
qed


subsection \<open>Date parsing\<close>

lemma str_digits_range:
  "0 \<le> i \<Longrightarrow> \<forall>c\<in>set (str_digits i). 48 \<le> c \<and> c \<le> 57"
proof (induction i rule: str_digits.induct)
  case (1 i)
  show ?case
  proof (cases "i < 10")
    case True
    then have "str_digits i = [48 + i]" by (subst str_digits.simps) simp
    then show ?thesis using True "1.prems" by simp
  next
    case False
    then have e: "str_digits i = str_digits (i div 10) @ [48 + i mod 10]"
      by (subst str_digits.simps) simp
    have "0 \<le> i div 10" using "1.prems" by simp
    then have "\<forall>c\<in>set (str_digits (i div 10)). 48 \<le> c \<and> c \<le> 57"
      using "1.IH" False by simp
    moreover have "0 \<le> i mod 10" "i mod 10 < 10" by simp_all
    ultimately show ?thesis unfolding e by auto
  qed
qed

lemma replace_char_absent: "c \<notin> set s \<Longrightarrow> replace_char c new s = s"
  by (induction s) (simp_all add: replace_char_def)

lemma isoformat_no_Z:
  assumes "valid_date d"
  shows "90 \<notin> set (isoformat d)"
proof -
  have nn: "0 \<le> d_year d" "0 \<le> d_month d" "0 \<le> d_day d"
    using assms by (simp_all add: valid_date_def)
  have "90 \<notin> set (zero_pad n (str_int i))" if "0 \<le> i" for n i
    using str_digits_range [OF that] that by (auto simp: zero_pad_def str_int_def)
  then show ?thesis using nn by (simp add: isoformat_def)
qed

lemma isoformat_truthy: "truthy (PStr (isoformat d))"
  by (simp add: isoformat_def)

text \<open>
  Claim C8. \<open>parse_date\<close> raises no exception, whatever the value and whatever the library
  parser does: it gives \<open>None\<close> for a missing or empty value and where the parser or the
  constructor of the date-time raises, and otherwise the date part of what the parser
  reads from the text of the value with \<open>Z\<close> replaced by \<open>+00:00\<close>, which is a date of
  the calendar. A text that ends in \<open>Z\<close> is read as the text that ends in \<open>+00:00\<close>
  instead, and the ISO text of a date is read back as that date by every library that
  reads a date without a time. In the evaluator a date cell that does not parse gives
  no hit and no error: the hits of the row are those of the other milestone sets, and
  whether the evaluator fails does not depend on the rows.
\<close>

theorem parse_date_total:
  "(\<exists>res. parse_date L v = Inr res) \<and>
   (v \<in> {PNone, PStr []} \<longrightarrow> parse_date L v = Inr None) \<and>
   (truthy v \<longrightarrow>
      parse_date L v =
        Inr (case fromisoformat L (replace_char 90 (ascii ''+00:00'') (py_str v)) of
               Inl e \<Rightarrow> None
             | Inr dt \<Rightarrow> Some (dt_date dt))) \<and>
   (parse_date L v = Inr (Some d) \<longrightarrow> valid_date d) \<and>
   parse_date L (PStr (s @ [90])) = parse_date L (PStr (s @ ascii ''+00:00'')) \<and>
   (valid_date d' \<and>
    iso_fields L (isoformat d') =
      Some \<lparr>dt_date = d', dt_hour = 0, dt_minute = 0, dt_second = 0, dt_microsecond = 0,
            dt_utcoffset = None\<rparr> \<longrightarrow>
      parse_date L (PStr (isoformat d')) = Inr (Some d')) \<and>
   (parse_date L (cell_value r (Some (date_id ms))) = Inr None \<longrightarrow>
      milestone_hit L today r ms = Inr None \<and>
      row_hits L today (pre @ ms # post) r = row_hits L today (pre @ post) r) \<and>
   isl (find_past_due_milestones L w (sh\<lparr>rows := rs\<rparr>)) =
     isl (find_past_due_milestones L w sh)"
proof (intro conjI impI)
  show "\<exists>res. parse_date L v = Inr res" by (rule parse_date_Inr)
next
  assume "v \<in> {PNone, PStr []}"
  then show "parse_date L v = Inr None" by (auto simp: parse_date_def)
next
  assume "truthy v"
  then show "parse_date L v =
        Inr (case fromisoformat L (replace_char 90 (ascii ''+00:00'') (py_str v)) of
               Inl e \<Rightarrow> None
             | Inr dt \<Rightarrow> Some (dt_date dt))"
    by (simp add: parse_date_def try_except_def split: sum.splits)
next
  assume "parse_date L v = Inr (Some d)"
  then show "valid_date d" by (rule parse_date_valid)
next
  have "replace_char 90 (ascii ''+00:00'') (s @ [90]) =
        replace_char 90 (ascii ''+00:00'') (s @ ascii ''+00:00'')"
    unfolding replace_char_append by (simp add: replace_char_def ascii_def)
  moreover have "ascii ''+00:00'' \<noteq> []" by (simp add: ascii_def)
  ultimately show "parse_date L (PStr (s @ [90])) = parse_date L (PStr (s @ ascii ''+00:00''))"
    by (simp add: parse_date_def)
next
  assume a: "valid_date d' \<and>
    iso_fields L (isoformat d') =
      Some \<lparr>dt_date = d', dt_hour = 0, dt_minute = 0, dt_second = 0, dt_microsecond = 0,
            dt_utcoffset = None\<rparr>"
  have r: "replace_char 90 (ascii ''+00:00'') (isoformat d') = isoformat d'"
    using a by (intro replace_char_absent isoformat_no_Z) simp
  have "fromisoformat L (isoformat d') =
      Inr \<lparr>dt_date = d', dt_hour = 0, dt_minute = 0, dt_second = 0, dt_microsecond = 0,
            dt_utcoffset = None\<rparr>"
    using a by (simp add: fromisoformat_def datetime_new_def)
  then show "parse_date L (PStr (isoformat d')) = Inr (Some d')"
    unfolding parse_date_Some_iff using isoformat_truthy [of d'] by (simp add: r)
next
  assume n: "parse_date L (cell_value r (Some (date_id ms))) = Inr None"
  have m: "milestone_hit L today r ms = Inr None"
    unfolding milestone_hit_None_iff using n by simp
  show "row_hits L today (pre @ ms # post) r = row_hits L today (pre @ post) r"
    unfolding row_hits_append by (simp add: m row_hits_eq)
next
  assume n: "parse_date L (cell_value r (Some (date_id ms))) = Inr None"
  show "milestone_hit L today r ms = Inr None"
    unfolding milestone_hit_None_iff using n by simp
next
  show "isl (find_past_due_milestones L w (sh\<lparr>rows := rs\<rparr>)) =
     isl (find_past_due_milestones L w sh)"
    by (simp add: find_error_iff)
qed

theorem parse_date_total_witness:
  "truthy (PStr (ascii ''2020-01-01T12:30:00Z'')) \<and>
   parse_date example_lib (PStr (ascii ''2020-01-01T12:30:00Z'')) = Inr (Some jan_01) \<and>
   valid_date jan_01 \<and>
   parse_date example_lib (PStr (ascii ''2020-01-01T12:30:00+00:00'')) = Inr (Some jan_01) \<and>
   parse_date example_lib (PStr (ascii ''2020-01-10 23:59:59.123456-05:00'')) =
     Inr (Some jan_10) \<and>
   isoformat jan_01 = ascii ''2020-01-01'' \<and>
   iso_fields example_lib (isoformat jan_01) =
     Some \<lparr>dt_date = jan_01, dt_hour = 0, dt_minute = 0, dt_second = 0, dt_microsecond = 0,
           dt_utcoffset = None\<rparr> \<and>
   parse_date example_lib (PStr (isoformat jan_01)) = Inr (Some jan_01) \<and>
   parse_date example_lib (PStr (ascii ''2020-01-01T25:00:00'')) = Inr None \<and>
   parse_date example_lib (PStr (ascii ''2020-01-01T12:60'')) = Inr None \<and>
   parse_date example_lib (PStr (ascii ''2020-01-01Tgarbage'')) = Inr None \<and>
   parse_date example_lib (PStr (ascii ''2020-01-01T12:30:00+24:00'')) = Inr None \<and>
   parse_date example_lib (PStr (ascii ''2020-02-30'')) = Inr None \<and>
   parse_date example_lib (PStr (ascii ''2019-02-29T10:00:00'')) = Inr None \<and>
   parse_date example_lib (PStr (ascii ''not-a-date'')) = Inr None \<and>
   parse_date example_lib (PBool True) = Inr None \<and>
   parse_date example_lib
     (cell_value (project_row (PStr (ascii ''Alpha'')) (PStr (ascii ''not-a-date''))
                    (PStr (ascii ''Open''))) (Some (date_id m1_set))) = Inr None \<and>
   milestone_hit example_lib jan_10
     (project_row (PStr (ascii ''Alpha'')) (PStr (ascii ''not-a-date'')) (PStr (ascii ''Open'')))
     m1_set = Inr None \<and>
   find_past_due_milestones example_lib (clock_at jan_10)
     (alpha_sheet\<lparr>rows := Some
        [project_row (PStr (ascii ''Alpha'')) (PStr (ascii ''not-a-date''))
           (PStr (ascii ''Open'')),
         alpha_row]\<rparr>) = Inr [alpha_result]"
proof -
  let ?bad = "project_row (PStr (ascii ''Alpha'')) (PStr (ascii ''not-a-date''))
                (PStr (ascii ''Open''))"
  note T = parse_date_total [where L = example_lib
      and v = "PStr (ascii ''2020-01-01T12:30:00Z'')" and d = jan_01 and d' = jan_01
      and s = "ascii ''2020-01-01T12:30:00''" and r = ?bad and ms = m1_set
      and today = jan_10 and pre = "[]" and post = "[]"]
  have t: "truthy (PStr (ascii ''2020-01-01T12:30:00Z''))" by code_simp
  have p: "parse_date example_lib (PStr (ascii ''2020-01-01T12:30:00Z'')) = Inr (Some jan_01)"
    by code_simp
  have v: "valid_date jan_01" using T p by blast
  have ap: "ascii ''2020-01-01T12:30:00'' @ [90] = ascii ''2020-01-01T12:30:00Z''"
    "ascii ''2020-01-01T12:30:00'' @ ascii ''+00:00'' = ascii ''2020-01-01T12:30:00+00:00''"
    by (simp_all add: ascii_def)
  have "parse_date example_lib (PStr (ascii ''2020-01-01T12:30:00'' @ [90])) =
        parse_date example_lib (PStr (ascii ''2020-01-01T12:30:00'' @ ascii ''+00:00''))"
    using T by blast
  then have z: "parse_date example_lib (PStr (ascii ''2020-01-01T12:30:00+00:00'')) =
      Inr (Some jan_01)"
    using p unfolding ap by simp
  have o: "parse_date example_lib (PStr (ascii ''2020-01-10 23:59:59.123456-05:00'')) =
     Inr (Some jan_10)"
    by code_simp
  have i: "isoformat jan_01 = ascii ''2020-01-01''" by code_simp
  have f: "iso_fields example_lib (isoformat jan_01) =
     Some \<lparr>dt_date = jan_01, dt_hour = 0, dt_minute = 0, dt_second = 0, dt_microsecond = 0,
           dt_utcoffset = None\<rparr>"
    by code_simp
  have rt: "parse_date example_lib (PStr (isoformat jan_01)) = Inr (Some jan_01)"
    using T v f by blast
  have n: "parse_date example_lib (PStr (ascii ''2020-01-01T25:00:00'')) = Inr None"
    "parse_date example_lib (PStr (ascii ''2020-01-01T12:60'')) = Inr None"
    "parse_date example_lib (PStr (ascii ''2020-01-01Tgarbage'')) = Inr None"
    "parse_date example_lib (PStr (ascii ''2020-01-01T12:30:00+24:00'')) = Inr None"
    "parse_date example_lib (PStr (ascii ''2020-02-30'')) = Inr None"
    "parse_date example_lib (PStr (ascii ''2019-02-29T10:00:00'')) = Inr None"
    "parse_date example_lib (PStr (ascii ''not-a-date'')) = Inr None"
    "parse_date example_lib (PBool True) = Inr None"
    by code_simp+
  have c: "parse_date example_lib (cell_value ?bad (Some (date_id m1_set))) = Inr None"
    by code_simp
  have m: "milestone_hit example_lib jan_10 ?bad m1_set = Inr None"
    using T c by blast
  have e: "find_past_due_milestones example_lib (clock_at jan_10)
     (alpha_sheet\<lparr>rows := Some [?bad, alpha_row]\<rparr>) = Inr [alpha_result]"
    by code_simp
  show ?thesis using t p v z o i f rt n c m e by blast
qed


subsection \<open>The project name\<close>

text \<open>
  Claim C9, as stated: the project name of a result equals the cell value of the primary
  column, and is the placeholder exactly when that value is absent. The code takes
  \<open>cell_value(row, primary_col_id) or "(Unnamed Project)"\<close>, so a value that is there but
  falsy gives the placeholder too: a row whose primary cell holds the number 0 is
  reported under the placeholder.
\<close>

theorem project_name_counterexample:
  "cell_value (project_row (PInt 0) (PStr (ascii ''2020-01-01'')) (PStr (ascii ''Open'')))
     (primary_of example_lib alpha_sheet) = PInt 0 \<and>
   find_past_due_milestones example_lib (clock_at jan_10)
     (alpha_sheet\<lparr>rows := Some
        [project_row (PInt 0) (PStr (ascii ''2020-01-01'')) (PStr (ascii ''Open''))]\<rparr>) =
     Inr [\<lparr>project = PStr (ascii ''(Unnamed Project)''), hits = [kickoff_hit]\<rparr>]"
  by code_simp

text \<open>
  Claim C9, amended: every result comes from a row of the document, and its project name
  is the cell value of the primary column when that value is truthy and the placeholder
  when the value is absent, \<open>null\<close> or otherwise falsy (the empty string, 0, false).
\<close>

theorem project_name_or_placeholder:
  "(find_past_due_milestones L w sh = Inr results \<and> milestone_sets_of L sh = Inr sets \<longrightarrow>
      (\<forall>res\<in>set results. \<exists>r\<in>set (get_list (rows sh)). \<exists>hs.
         row_hits L (get_today_local w) sets r = Inr hs \<and>
         hits res = sort_desc h_days hs \<and>
         project res =
           (if truthy (cell_value r (primary_of L sh)) then cell_value r (primary_of L sh)
            else PStr (ascii ''(Unnamed Project)'')))) \<and>
   (row_result L today p sets r = Inr (Some res) \<longrightarrow>
      project res =
        (if truthy (cell_value r p) then cell_value r p
         else PStr (ascii ''(Unnamed Project)''))) \<and>
   (row_result L today p sets r = Inr (Some res) \<and>
    cell_value r p \<in> {PNone, PStr [], PInt 0, PBool False} \<longrightarrow>
      project res = PStr (ascii ''(Unnamed Project)''))"
proof (intro conjI impI)
  show "\<forall>res\<in>set results. \<exists>r\<in>set (get_list (rows sh)). \<exists>hs.
         row_hits L (get_today_local w) sets r = Inr hs \<and>
         hits res = sort_desc h_days hs \<and>
         project res =
           (if truthy (cell_value r (primary_of L sh)) then cell_value r (primary_of L sh)
            else PStr (ascii ''(Unnamed Project)''))"
    if a: "find_past_due_milestones L w sh = Inr results \<and> milestone_sets_of L sh = Inr sets"
  proof
    fix res
    assume "res \<in> set results"
    then obtain r where r: "r \<in> set (get_list (rows sh))"
      and rr: "row_result L (get_today_local w) (primary_of L sh) sets r = Inr (Some res)"
      using a by (auto simp: find_results_set)
    from rr obtain hs where "row_hits L (get_today_local w) sets r = Inr hs"
      and "hits res = sort_desc h_days hs"
      and "project res =
             py_or (cell_value r (primary_of L sh)) (PStr (ascii ''(Unnamed Project)''))"
      unfolding row_result_Some_iff by auto
    then show "\<exists>r\<in>set (get_list (rows sh)). \<exists>hs.
         row_hits L (get_today_local w) sets r = Inr hs \<and>
         hits res = sort_desc h_days hs \<and>
         project res =
           (if truthy (cell_value r (primary_of L sh)) then cell_value r (primary_of L sh)
            else PStr (ascii ''(Unnamed Project)''))"
      using r by (auto simp: py_or_def)
  qed
  show p: "project res =
        (if truthy (cell_value r p) then cell_value r p
         else PStr (ascii ''(Unnamed Project)''))"
    if "row_result L today p sets r = Inr (Some res)"
    using that unfolding row_result_Some_iff by (auto simp: py_or_def)
  show "project res = PStr (ascii ''(Unnamed Project)'')"
    if "row_result L today p sets r = Inr (Some res) \<and>
        cell_value r p \<in> {PNone, PStr [], PInt 0, PBool False}"
  proof -
    have "\<not> truthy (cell_value r p)" using that by auto
    moreover have "project res =
        (if truthy (cell_value r p) then cell_value r p
         else PStr (ascii ''(Unnamed Project)''))"
      using that unfolding row_result_Some_iff by (auto simp: py_or_def)
    ultimately show ?thesis by simp
  qed
qed

theorem project_name_or_placeholder_witness:
  "find_past_due_milestones example_lib (clock_at jan_10) alpha_sheet = Inr [alpha_result] \<and>
   milestone_sets_of example_lib alpha_sheet = Inr [m1_set] \<and>
   truthy (cell_value alpha_row (primary_of example_lib alpha_sheet)) \<and>
   project alpha_result = cell_value alpha_row (primary_of example_lib alpha_sheet) \<and>
   row_result example_lib jan_10 (Some 1) [m1_set]
     (project_row (PStr []) (PStr (ascii ''2020-01-01'')) (PStr (ascii ''Open''))) =
     Inr (Some \<lparr>project = PStr (ascii ''(Unnamed Project)''), hits = [kickoff_hit]\<rparr>) \<and>
   cell_value (project_row (PStr []) (PStr (ascii ''2020-01-01'')) (PStr (ascii ''Open'')))
     (Some 1) \<in> {PNone, PStr [], PInt 0, PBool False} \<and>
   project \<lparr>project = PStr (ascii ''(Unnamed Project)''), hits = [kickoff_hit]\<rparr> =
     PStr (ascii ''(Unnamed Project)'')"
proof -
  let ?r = "project_row (PStr []) (PStr (ascii ''2020-01-01'')) (PStr (ascii ''Open''))"
  let ?res = "\<lparr>project = PStr (ascii ''(Unnamed Project)''), hits = [kickoff_hit]\<rparr>"
  have f: "find_past_due_milestones example_lib (clock_at jan_10) alpha_sheet =
      Inr [alpha_result]"
    by code_simp
  have s: "milestone_sets_of example_lib alpha_sheet = Inr [m1_set]" by code_simp
  have rr: "row_result example_lib jan_10 (Some 1) [m1_set] ?r = Inr (Some ?res)"
    by code_simp
  have cv: "cell_value ?r (Some 1) \<in> {PNone, PStr [], PInt 0, PBool False}"
    by code_simp
  note T = project_name_or_placeholder [where L = example_lib and w = "clock_at jan_10"
      and sh = alpha_sheet and results = "[alpha_result]" and sets = "[m1_set]"
      and today = jan_10 and p = "Some 1" and r = ?r and res = ?res]
  have rows: "get_list (rows alpha_sheet) = [alpha_row]" by code_simp
  have tr: "truthy (cell_value alpha_row (primary_of example_lib alpha_sheet))" by code_simp
  have "\<forall>res\<in>set [alpha_result]. \<exists>r\<in>set (get_list (rows alpha_sheet)).
      project res =
        (if truthy (cell_value r (primary_of example_lib alpha_sheet))
         then cell_value r (primary_of example_lib alpha_sheet)
         else PStr (ascii ''(Unnamed Project)''))"
    using T f s by blast
  then have r1: "project alpha_result = cell_value alpha_row (primary_of example_lib alpha_sheet)"
    using tr by (simp add: rows)
  have r2: "project ?res = PStr (ascii ''(Unnamed Project)'')"
    using T rr cv by blast
  show ?thesis using f s tr r1 rr cv r2 by blast
qed


subsection \<open>Where today comes from\<close>

text \<open>
  Claim C7, as stated: the evaluator is a function of the document and of a today value
  that is handed to it, and never reads today itself. The code's evaluator takes the
  document only and calls \<open>get_today_local\<close> in its body: the same document gives
  different results under two clocks.
\<close>

theorem evaluator_reads_clock_counterexample:
  "find_past_due_milestones example_lib (clock_at jan_10) alpha_sheet \<noteq>
   find_past_due_milestones example_lib (clock_at jan_01) alpha_sheet"
proof -
  have "find_past_due_milestones example_lib (clock_at jan_10) alpha_sheet =
      Inr [alpha_result]"
    by code_simp
  moreover have "find_past_due_milestones example_lib (clock_at jan_01) alpha_sheet = Inr []"
    by code_simp
  ultimately show ?thesis by simp
qed

text \<open>
  Claim C7, amended: the evaluator reads today from the clock inside the component, and
  its result is a function of the document and of the date the clock gives: two
  evaluations of the same document under clocks that give the same date produce the same
  result, whatever else differs between them.
\<close>

theorem evaluator_depends_on_date_only:
  "get_today_local w1 = get_today_local w2 \<Longrightarrow>
   find_past_due_milestones L w1 sh = find_past_due_milestones L w2 sh"
  by (simp add: find_unfold split: sum.splits)

theorem evaluator_depends_on_date_only_witness:
  "get_today_local (clock_at jan_10) =
     get_today_local \<lparr>local_now = (local_now (clock_at jan_10))\<lparr>dt_hour := 23\<rparr>\<rparr> \<and>
   find_past_due_milestones example_lib (clock_at jan_10) alpha_sheet =
     find_past_due_milestones example_lib
       \<lparr>local_now = (local_now (clock_at jan_10))\<lparr>dt_hour := 23\<rparr>\<rparr> alpha_sheet"
proof -
  have d: "get_today_local (clock_at jan_10) =
     get_today_local \<lparr>local_now = (local_now (clock_at jan_10))\<lparr>dt_hour := 23\<rparr>\<rparr>"
    by (simp add: get_today_local_def clock_at_def)
  show ?thesis
    using d evaluator_depends_on_date_only [OF d, of example_lib alpha_sheet] by simp
qed


subsection \<open>The order of the results\<close>

text \<open>
  Claim C5. In every result the hits are in descending order of their days, and hits of
  equal days keep the order in which the row produced them, which is the order of the
  schema. The results are in descending order of the days of their first hit, which is
  the largest of the result, and results that tie keep the order of their rows.
\<close>

theorem results_sorted:
  "find_past_due_milestones L w sh = Inr results \<and> milestone_sets_of L sh = Inr sets \<longrightarrow>
     (\<forall>res\<in>set results.
        hits res \<noteq> [] \<and>
        sorted_wrt (\<lambda>a b. h_days b \<le> h_days a) (hits res) \<and>
        first_days res = h_days (hd (hits res)) \<and>
        (\<forall>h\<in>set (hits res). h_days h \<le> first_days res) \<and>
        (\<exists>r\<in>set (get_list (rows sh)). \<exists>hs.
           row_hits L (get_today_local w) sets r = Inr hs \<and>
           (\<forall>k. filter (\<lambda>h. h_days h = k) (hits res) = filter (\<lambda>h. h_days h = k) hs)) \<and>
        (\<forall>k. subseq (map h_label (filter (\<lambda>h. h_days h = k) (hits res)))
               (map ms_label sets))) \<and>
     sorted_wrt (\<lambda>a b. first_days b \<le> first_days a) results \<and>
     (\<exists>unsorted.
        row_results L (get_today_local w) (primary_of L sh) sets (get_list (rows sh)) =
          Inr unsorted \<and>
        (\<forall>k. filter (\<lambda>res. first_days res = k) results =
             filter (\<lambda>res. first_days res = k) unsorted))"
proof (intro impI, elim conjE)
  assume f: "find_past_due_milestones L w sh = Inr results"
    and s: "milestone_sets_of L sh = Inr sets"
  let ?today = "get_today_local w"
  let ?unsorted = "List.map_filter
      (\<lambda>r. projr (row_result L ?today (primary_of L sh) sets r)) (get_list (rows sh))"
  have res_eq: "results = sort_desc first_days ?unsorted"
    by (rule find_results(1) [OF f s])
  have per_result:
    "hits res \<noteq> [] \<and>
     sorted_wrt (\<lambda>a b. h_days b \<le> h_days a) (hits res) \<and>
     first_days res = h_days (hd (hits res)) \<and>
     (\<forall>h\<in>set (hits res). h_days h \<le> first_days res) \<and>
     (\<exists>r\<in>set (get_list (rows sh)). \<exists>hs.
        row_hits L ?today sets r = Inr hs \<and>
        (\<forall>k. filter (\<lambda>h. h_days h = k) (hits res) = filter (\<lambda>h. h_days h = k) hs)) \<and>
     (\<forall>k. subseq (map h_label (filter (\<lambda>h. h_days h = k) (hits res))) (map ms_label sets))"
    if "res \<in> set results" for res
  proof -
    from that obtain r where r: "r \<in> set (get_list (rows sh))"
      and rr: "row_result L ?today (primary_of L sh) sets r = Inr (Some res)"
      unfolding find_results_set [OF f s] by auto
    from rr obtain hs0 where rh: "row_hits L ?today sets r = Inr hs0" and ne: "hs0 \<noteq> []"
      and hs: "hits res = sort_desc h_days hs0"
      unfolding row_result_Some_iff by auto
    have 1: "hits res \<noteq> []" using ne by (simp add: hs sort_desc_Nil)
    have 2: "sorted_wrt (\<lambda>a b. h_days b \<le> h_days a) (hits res)"
      unfolding hs by (rule sort_desc_sorted)
    have 3: "first_days res = h_days (hd (hits res))"
      using 1 by (rule first_days_hd)
    have 4: "\<forall>h\<in>set (hits res). h_days h \<le> first_days res"
      using sorted_desc_head [OF 2] by (simp add: 3)
    have 5: "filter (\<lambda>h. h_days h = k) (hits res) = filter (\<lambda>h. h_days h = k) hs0" for k
      unfolding hs by (rule sort_desc_stable)
    have 6: "subseq (map h_label (filter (\<lambda>h. h_days h = k) (hits res))) (map ms_label sets)"
      for k
      unfolding 5 by (rule row_hits_labels_subseq [OF rh])
    show ?thesis using 1 2 3 4 5 6 r rh by blast
  qed
  have sorted: "sorted_wrt (\<lambda>a b. first_days b \<le> first_days a) results"
    unfolding res_eq by (rule sort_desc_sorted)
  have un: "row_results L ?today (primary_of L sh) sets (get_list (rows sh)) = Inr ?unsorted"
    by (rule row_results_eq)
  have stable: "filter (\<lambda>res. first_days res = k) results =
                filter (\<lambda>res. first_days res = k) ?unsorted" for k
    unfolding res_eq by (rule sort_desc_stable)
  show "(\<forall>res\<in>set results.
        hits res \<noteq> [] \<and>
        sorted_wrt (\<lambda>a b. h_days b \<le> h_days a) (hits res) \<and>
        first_days res = h_days (hd (hits res)) \<and>
        (\<forall>h\<in>set (hits res). h_days h \<le> first_days res) \<and>
        (\<exists>r\<in>set (get_list (rows sh)). \<exists>hs.
           row_hits L (get_today_local w) sets r = Inr hs \<and>
           (\<forall>k. filter (\<lambda>h. h_days h = k) (hits res) = filter (\<lambda>h. h_days h = k) hs)) \<and>
        (\<forall>k. subseq (map h_label (filter (\<lambda>h. h_days h = k) (hits res)))
               (map ms_label sets))) \<and>
     sorted_wrt (\<lambda>a b. first_days b \<le> first_days a) results \<and>
     (\<exists>unsorted.
        row_results L (get_today_local w) (primary_of L sh) sets (get_list (rows sh)) =
          Inr unsorted \<and>
        (\<forall>k. filter (\<lambda>res. first_days res = k) results =
             filter (\<lambda>res. first_days res = k) unsorted))"
    using per_result sorted un stable by blast
qed

theorem results_sorted_witness:
  "find_past_due_milestones example_lib (clock_at jan_10) beta_sheet = Inr beta_results \<and>
   milestone_sets_of example_lib beta_sheet = Inr beta_sets \<and>
   map (\<lambda>res. map h_days (hits res)) beta_results = [[10], [9, 5], [9, 9]] \<and>
   map (\<lambda>res. map h_label (hits res)) beta_results =
     [[ascii ''M1''], [ascii ''M2'', ascii ''M1''], [ascii ''M1'', ascii ''M2'']] \<and>
   map project beta_results =
     [PStr (ascii ''Gamma''), PStr (ascii ''Alpha''), PStr (ascii ''Beta'')] \<and>
   sorted_wrt (\<lambda>a b. first_days b \<le> first_days a) beta_results \<and>
   beta_results ! 1 \<in> set beta_results \<and>
   sorted_wrt (\<lambda>a b. h_days b \<le> h_days a) (hits (beta_results ! 1))"
proof -
  have f: "find_past_due_milestones example_lib (clock_at jan_10) beta_sheet =
      Inr beta_results"
    by code_simp
  have s: "milestone_sets_of example_lib beta_sheet = Inr beta_sets" by code_simp
  have d: "map (\<lambda>res. map h_days (hits res)) beta_results = [[10], [9, 5], [9, 9]]"
    by code_simp
  have l: "map (\<lambda>res. map h_label (hits res)) beta_results =
     [[ascii ''M1''], [ascii ''M2'', ascii ''M1''], [ascii ''M1'', ascii ''M2'']]"
    by code_simp
  have p: "map project beta_results =
     [PStr (ascii ''Gamma''), PStr (ascii ''Alpha''), PStr (ascii ''Beta'')]"
    by code_simp
  note T = results_sorted [where L = example_lib and w = "clock_at jan_10"
      and sh = beta_sheet and results = beta_results and sets = beta_sets]
  have r1: "sorted_wrt (\<lambda>a b. first_days b \<le> first_days a) beta_results"
    using T f s by blast
  have m: "beta_results ! 1 \<in> set beta_results" by code_simp
  have "\<forall>res\<in>set beta_results. sorted_wrt (\<lambda>a b. h_days b \<le> h_days a) (hits res)"
    using T f s by blast
  then have r2: "sorted_wrt (\<lambda>a b. h_days b \<le> h_days a) (hits (beta_results ! 1))"
    using m by blast
  show ?thesis using f s d l p r1 m r2 by blast
qed


subsection \<open>The summary text\<close>

lemma rstrip_keeps_head:
  assumes "\<not> is_space c"
  shows "rstrip (c # s) \<noteq> []"
proof -
  have "c \<in> set (rev s @ [c])" by simp
  then have "dropWhile is_space (rev s @ [c]) \<noteq> []"
    using assms by (auto simp only: dropWhile_eq_Nil_conv)
  then show ?thesis by (simp add: rstrip_def)
qed

lemma rstrip_tail_spaces: "list_all is_space (rev (takeWhile is_space (rev x)))"
  by (auto simp: list_all_iff dest: set_takeWhileD)

text \<open>
  Claim C6. \<open>format_summary\<close> is a function of the list of results. For the empty list it
  gives the celebratory message. For any other list it gives the lines
  \<open>Past-due milestones (not completed): total\<close>, \<open>Projects impacted: count\<close>, an empty
  line, and for each project a bullet line with its name, one line
  \<open>   - title (label) | Due: date | Overdue: Nd | Status: status\<close> for each hit, and an
  empty line; the lines are joined by newlines and the whitespace at the end is
  stripped, all of it and nothing else: the text ends with a character that is not
  whitespace, and what was removed after it is whitespace only.
\<close>

theorem format_summary_layout:
  "format_summary [] = ascii ''No past-due incomplete milestones found '' @ [0x1F389] \<and>
   (results \<noteq> [] \<longrightarrow>
      (\<exists>removed.
         join [10]
           ([ascii ''Past-due milestones (not completed): '' @
               str_int (sum_list (map (\<lambda>r. int (length (hits r))) results)),
             ascii ''Projects impacted: '' @ str_int (int (length results)),
             []] @
            concat (map (\<lambda>r.
              [[0x2022] @ ascii '' '' @ py_str (project r)] @
              map (\<lambda>h. ascii ''   - '' @ py_str (h_milestone h) @ ascii '' ('' @ h_label h @
                        ascii '') | Due: '' @ h_due h @ ascii '' | Overdue: '' @
                        str_int (h_days h) @ ascii ''d | Status: '' @ py_str (h_status h))
                (hits r) @
              [[]]) results)) =
         format_summary results @ removed \<and>
         list_all is_space removed \<and>
         format_summary results \<noteq> [] \<and>
         \<not> is_space (last (format_summary results)))) \<and>
   (results = results' \<longrightarrow> format_summary results = format_summary results')"
proof (intro conjI impI)
  show "format_summary [] = ascii ''No past-due incomplete milestones found '' @ [0x1F389]"
    by (simp add: format_summary_def celebratory_def)
  show "format_summary results = format_summary results'" if "results = results'"
    using that by simp
  let ?hit = "\<lambda>h. ascii ''   - '' @ py_str (h_milestone h) @ ascii '' ('' @ h_label h @
                        ascii '') | Due: '' @ h_due h @ ascii '' | Overdue: '' @
                        str_int (h_days h) @ ascii ''d | Status: '' @ py_str (h_status h)"
  let ?proj = "\<lambda>r. [[0x2022] @ ascii '' '' @ py_str (project r)] @ map ?hit (hits r) @ [[]]"
  let ?first = "ascii ''ast-due milestones (not completed): '' @
               str_int (sum_list (map (\<lambda>r. int (length (hits r))) results))"
  let ?rest = "[ascii ''Projects impacted: '' @ str_int (int (length results)), []] @
               concat (map ?proj results)"
  let ?text = "join [10] ((80 # ?first) # ?rest)"
  have p: "\<not> is_space 80" by (simp add: is_space_def)
  have h: "ascii ''Past-due milestones (not completed): '' =
           80 # ascii ''ast-due milestones (not completed): ''"
    by (simp add: ascii_def)
  have lines: "project_lines = ?proj"
    by (rule ext) (simp add: project_lines_def bullet_def hit_line_def)
  have tx: "?text = 80 # (?first @ [10] @ join [10] ?rest)"
    by (simp add: join_Cons_Cons del: join.simps)
  have fs: "format_summary results = rstrip ?text" if "results \<noteq> []"
    using that unfolding format_summary_def Let_def lines h
    by (simp add: strip_non_space [OF p] del: join.simps add: join_Cons_Cons)
  show "\<exists>removed.
         join [10]
           ([ascii ''Past-due milestones (not completed): '' @
               str_int (sum_list (map (\<lambda>r. int (length (hits r))) results)),
             ascii ''Projects impacted: '' @ str_int (int (length results)),
             []] @
            concat (map (\<lambda>r.
              [[0x2022] @ ascii '' '' @ py_str (project r)] @
              map (\<lambda>h. ascii ''   - '' @ py_str (h_milestone h) @ ascii '' ('' @ h_label h @
                        ascii '') | Due: '' @ h_due h @ ascii '' | Overdue: '' @
                        str_int (h_days h) @ ascii ''d | Status: '' @ py_str (h_status h))
                (hits r) @
              [[]]) results)) =
         format_summary results @ removed \<and>
         list_all is_space removed \<and>
         format_summary results \<noteq> [] \<and>
         \<not> is_space (last (format_summary results))"
    if ne: "results \<noteq> []"
  proof -
    have st: "strip ?text = rstrip ?text"
      unfolding tx by (rule strip_non_space [OF p])
    have 1: "?text = format_summary results @ rev (takeWhile is_space (rev ?text))"
      unfolding fs [OF ne] by (rule rstrip_decomp)
    have 2: "list_all is_space (rev (takeWhile is_space (rev ?text)))"
      by (rule rstrip_tail_spaces)
    have 3: "format_summary results \<noteq> []"
      unfolding fs [OF ne] tx by (rule rstrip_keeps_head [OF p])
    have "strip ?text \<noteq> []" using 3 unfolding fs [OF ne] st .
    then have "\<not> is_space (last (strip ?text))" by (rule strip_last)
    then have 4: "\<not> is_space (last (format_summary results))"
      unfolding fs [OF ne] st .
    have e: "join [10]
           ([ascii ''Past-due milestones (not completed): '' @
               str_int (sum_list (map (\<lambda>r. int (length (hits r))) results)),
             ascii ''Projects impacted: '' @ str_int (int (length results)),
             []] @ concat (map ?proj results)) = ?text"
      unfolding h by simp
    show ?thesis
      unfolding e using 1 2 3 4 by blast
  qed
qed

theorem format_summary_layout_witness:
  "[alpha_result] \<noteq> [] \<and>
   format_summary [alpha_result] =
     ascii ''Past-due milestones (not completed): 1'' @ [10] @
     ascii ''Projects impacted: 1'' @ [10, 10] @
     [0x2022] @ ascii '' Alpha'' @ [10] @
     ascii ''   - Kickoff (M1) | Due: 2020-01-01 | Overdue: 9d | Status: Open'' \<and>
   format_summary
     [\<lparr>project = PStr (ascii ''Alpha''),
       hits = [kickoff_hit\<lparr>h_status := PStr (ascii ''Open'' @ [160, 32])\<rparr>]\<rparr>] =
     format_summary [alpha_result] \<and>
   format_summary [alpha_result\<lparr>hits := [kickoff_hit\<lparr>h_status := PNone\<rparr>]\<rparr>] =
     ascii ''Past-due milestones (not completed): 1'' @ [10] @
     ascii ''Projects impacted: 1'' @ [10, 10] @
     [0x2022] @ ascii '' Alpha'' @ [10] @
     ascii ''   - Kickoff (M1) | Due: 2020-01-01 | Overdue: 9d | Status: None'' \<and>
   \<not> is_space (last (format_summary [alpha_result]))"
proof -
  have ne: "[alpha_result] \<noteq> []" by simp
  have a: "format_summary [alpha_result] =
     ascii ''Past-due milestones (not completed): 1'' @ [10] @
     ascii ''Projects impacted: 1'' @ [10, 10] @
     [0x2022] @ ascii '' Alpha'' @ [10] @
     ascii ''   - Kickoff (M1) | Due: 2020-01-01 | Overdue: 9d | Status: Open''"
    by code_simp
  have b: "format_summary
     [\<lparr>project = PStr (ascii ''Alpha''),
       hits = [kickoff_hit\<lparr>h_status := PStr (ascii ''Open'' @ [160, 32])\<rparr>]\<rparr>] =
     format_summary [alpha_result]"
    by code_simp
  have c: "format_summary [alpha_result\<lparr>hits := [kickoff_hit\<lparr>h_status := PNone\<rparr>]\<rparr>] =
     ascii ''Past-due milestones (not completed): 1'' @ [10] @
     ascii ''Projects impacted: 1'' @ [10, 10] @
     [0x2022] @ ascii '' Alpha'' @ [10] @
     ascii ''   - Kickoff (M1) | Due: 2020-01-01 | Overdue: 9d | Status: None''"
    by code_simp
  have d: "\<not> is_space (last (format_summary [alpha_result]))"
    using format_summary_layout [where results = "[alpha_result]"] ne by blast
  show ?thesis using ne a b c d by blast
qed


subsection \<open>Schema detection\<close>

text \<open>
  Claim C3, as stated, asks for an entry for every name \<open>m<n>\<close> with both companions, for
  every mapping. The sort of the entries converts the digits of each label with
  \<open>int()\<close>, which raises \<open>ValueError\<close> on more digits than the interpreter's limit (4300
  by default): for a mapping with a base name of 4301 digits and its two companions,
  the loop of the detector finds the entry, and the detector raises instead of
  returning it.
\<close>

theorem detect_milestone_sets_counterexample:
  "has_companions example_lib long_dict long_name \<and>
   detect_loop example_lib long_dict (map fst long_dict) = Inr [set_for long_dict long_name] \<and>
   detect_milestone_sets example_lib long_dict = Inl ValueError"
proof -
  have sub: "set (map fst long_dict) \<subseteq> fst ` set long_dict" by simp
  have nb: "\<not> is_base_name example_lib (long_name @ ascii '' date'')"
    "\<not> is_base_name example_lib (long_name @ ascii '' status'')"
    by (simp_all add: is_base_name_def long_name_def ascii_date_status is_decimal_def
        example_lib_def ascii_decimal_def)
  have f: "filter (has_companions example_lib long_dict) (map fst long_dict) = [long_name]"
    using long_dict_companions nb by (simp add: long_dict_def has_companions_def)
  have "detect_loop example_lib long_dict (map fst long_dict) =
          Inr [set_for long_dict long_name]"
    unfolding detect_loop_trimmed [OF long_dict_trimmed sub] f by simp
  then show ?thesis using long_dict_companions long_dict_detect by blast
qed

text \<open>
  Claim C3, amended: for a dictionary whose keys are normalised names (trimmed),
  detection raises \<open>ValueError\<close> when a key that is \<open>m\<close> followed by digits and has both
  \<open>m<n> date\<close> and \<open>m<n> status\<close> among the keys has more digits than \<open>int()\<close> accepts.
  Otherwise it does not fail and gives one entry \<open>M<n>\<close> for each such key, and for no
  other key; an entry carries the identifiers of the base, date and status columns. The
  entries are in ascending order of the number \<open>n\<close>, so that \<open>M2\<close> comes before \<open>M10\<close>.
\<close>

theorem detect_milestone_sets_spec:
  "(\<forall>k\<in>set (map fst d). strip k = k) \<longrightarrow>
     ((\<exists>k\<in>set (map fst d). has_companions L d k \<and> exceeds_limit L (tl k)) \<longrightarrow>
        detect_milestone_sets L d = Inl ValueError) \<and>
     (\<not> (\<exists>k\<in>set (map fst d). has_companions L d k \<and> exceeds_limit L (tl k)) \<longrightarrow>
        (\<exists>sets. detect_milestone_sets L d = Inr sets \<and>
           mset sets = mset (map (set_for d) (filter (has_companions L d) (map fst d))) \<and>
           sorted (map (label_number L) sets) \<and>
           (\<forall>x\<in>set sets. \<exists>k\<in>set (map fst d).
              has_companions L d k \<and> x = set_for d k \<and>
              label_number L x = digits_value L (tl k)) \<and>
           (distinct (map fst d) \<longrightarrow> distinct (map ms_label sets))))"
proof (intro impI conjI)
  assume tr: "\<forall>k\<in>set (map fst d). strip k = k"
    and ex: "\<exists>k\<in>set (map fst d). has_companions L d k \<and> exceeds_limit L (tl k)"
  show "detect_milestone_sets L d = Inl ValueError"
    unfolding detect_milestone_sets_trimmed [OF tr] using ex by simp
next
  assume tr: "\<forall>k\<in>set (map fst d). strip k = k"
    and nex: "\<not> (\<exists>k\<in>set (map fst d). has_companions L d k \<and> exceeds_limit L (tl k))"
  let ?cands = "map (set_for d) (filter (has_companions L d) (map fst d))"
  let ?sets = "sort_key (label_number L) ?cands"
  have 1: "detect_milestone_sets L d = Inr ?sets"
    unfolding detect_milestone_sets_trimmed [OF tr] using nex by simp
  have 2: "mset ?sets = mset ?cands" by simp
  have 3: "sorted (map (label_number L) ?sets)" by (rule sorted_sort_key)
  have 4: "\<forall>x\<in>set ?sets. \<exists>k\<in>set (map fst d).
           has_companions L d k \<and> x = set_for d k \<and> label_number L x = digits_value L (tl k)"
    by (auto simp: label_number_set_for)
  have 5: "distinct (map ms_label ?sets)" if dk: "distinct (map fst d)"
  proof -
    have "inj_on (\<lambda>k. ms_label (set_for d k)) (set (filter (has_companions L d) (map fst d)))"
      by (rule inj_onI) (auto simp: has_companions_def intro: base_name_label_inj)
    moreover have "distinct (filter (has_companions L d) (map fst d))"
      using dk by (rule distinct_filter)
    ultimately have "distinct (map (\<lambda>k. ms_label (set_for d k))
        (filter (has_companions L d) (map fst d)))"
      by (simp add: distinct_map)
    then have "distinct (map ms_label ?cands)" by (simp add: comp_def)
    moreover have "mset (map ms_label ?sets) = mset (map ms_label ?cands)"
      using 2 by (metis mset_map)
    ultimately show ?thesis by (metis mset_eq_imp_distinct_iff)
  qed
  show "\<exists>sets. detect_milestone_sets L d = Inr sets \<and>
        mset sets = mset (map (set_for d) (filter (has_companions L d) (map fst d))) \<and>
        sorted (map (label_number L) sets) \<and>
        (\<forall>x\<in>set sets. \<exists>k\<in>set (map fst d).
           has_companions L d k \<and> x = set_for d k \<and> label_number L x = digits_value L (tl k)) \<and>
        (distinct (map fst d) \<longrightarrow> distinct (map ms_label sets))"
    using 1 2 3 4 5 by blast
qed

theorem detect_milestone_sets_spec_witness:
  "list_all (\<lambda>k. strip k = k) (map fst gamma_dict) \<and>
   list_all (\<lambda>k. \<not> (has_companions example_lib gamma_dict k \<and>
                      exceeds_limit example_lib (tl k))) (map fst gamma_dict) \<and>
   detect_milestone_sets example_lib gamma_dict = Inr gamma_sets \<and>
   map ms_label gamma_sets = [ascii ''M1'', ascii ''M2'', ascii ''M10''] \<and>
   map (set_for gamma_dict)
     (filter (has_companions example_lib gamma_dict) (map fst gamma_dict)) =
     [gamma_sets ! 1, gamma_sets ! 2, gamma_sets ! 0] \<and>
   \<not> has_companions example_lib gamma_dict (ascii ''m5'') \<and>
   sorted (map (label_number example_lib) gamma_sets) \<and>
   detect_milestone_sets arabic_lib arabic_dict = Inr arabic_sets \<and>
   map (label_number arabic_lib) arabic_sets = [2, 10]"
proof -
  have h0: "list_all (\<lambda>k. strip k = k) (map fst gamma_dict)" by code_simp
  then have h: "\<forall>k\<in>set (map fst gamma_dict). strip k = k" by (simp only: list_all_iff)
  have g0: "list_all (\<lambda>k. \<not> (has_companions example_lib gamma_dict k \<and>
                      exceeds_limit example_lib (tl k))) (map fst gamma_dict)"
    by code_simp
  then have g: "\<not> (\<exists>k\<in>set (map fst gamma_dict).
      has_companions example_lib gamma_dict k \<and> exceeds_limit example_lib (tl k))"
    by (simp only: list_all_iff) blast
  have e: "detect_milestone_sets example_lib gamma_dict = Inr gamma_sets" by code_simp
  have l: "map ms_label gamma_sets = [ascii ''M1'', ascii ''M2'', ascii ''M10'']" by code_simp
  have c: "map (set_for gamma_dict)
     (filter (has_companions example_lib gamma_dict) (map fst gamma_dict)) =
     [gamma_sets ! 1, gamma_sets ! 2, gamma_sets ! 0]" by code_simp
  have n: "\<not> has_companions example_lib gamma_dict (ascii ''m5'')" by code_simp
  have a1: "detect_milestone_sets arabic_lib arabic_dict = Inr arabic_sets" by code_simp
  have a2: "map (label_number arabic_lib) arabic_sets = [2, 10]" by code_simp
  obtain sets where "detect_milestone_sets example_lib gamma_dict = Inr sets"
    and s: "sorted (map (label_number example_lib) sets)"
    using detect_milestone_sets_spec [of gamma_dict example_lib] h g by blast
  then have "sets = gamma_sets" using e by simp
  then have "sorted (map (label_number example_lib) gamma_sets)" using s by simp
  then show ?thesis using h0 g0 e l c n a1 a2 by blast
qed


subsection \<open>The errors of the evaluator\<close>

text \<open>
  Claim C4, as stated, has the evaluator return normally whenever a milestone set is
  detected, with the empty list for a document without rows. For the document without
  rows whose three columns are a base name of 4301 digits and its two companions, the
  loop of the detector finds the set, and the evaluator raises the \<open>ValueError\<close> of the
  sort of the sets: an error that is not the one of a missing schema, and no list.
\<close>

theorem evaluator_error_counterexample:
  "get_list (rows long_sheet) = [] \<and>
   has_companions example_lib (norm_names example_lib long_sheet) long_name \<and>
   detect_loop example_lib (norm_names example_lib long_sheet)
     (map fst (norm_names example_lib long_sheet)) =
     Inr [set_for (norm_names example_lib long_sheet) long_name] \<and>
   find_past_due_milestones example_lib (clock_at jan_10) long_sheet = Inl ValueError"
proof -
  have r: "get_list (rows long_sheet) = []" by (simp add: long_sheet_def get_list_def)
  have sub: "set (map fst long_dict) \<subseteq> fst ` set long_dict" by simp
  have nb: "\<not> is_base_name example_lib (long_name @ ascii '' date'')"
    "\<not> is_base_name example_lib (long_name @ ascii '' status'')"
    by (simp_all add: is_base_name_def long_name_def ascii_date_status is_decimal_def
        example_lib_def ascii_decimal_def)
  have f: "filter (has_companions example_lib long_dict) (map fst long_dict) = [long_name]"
    using long_dict_companions nb by (simp add: long_dict_def has_companions_def)
  have l: "detect_loop example_lib long_dict (map fst long_dict) =
          Inr [set_for long_dict long_name]"
    unfolding detect_loop_trimmed [OF long_dict_trimmed sub] f by simp
  have "milestone_sets_of example_lib long_sheet = Inl ValueError"
    by (simp add: milestone_sets_of_def long_sheet_names long_dict_detect)
  then have e: "find_past_due_milestones example_lib (clock_at jan_10) long_sheet =
      Inl ValueError"
    by (simp add: find_unfold)
  show ?thesis
    unfolding long_sheet_names using r long_dict_companions l e by blast
qed

text \<open>
  Claim C4, amended: under a library whose \<open>str.lower\<close> keeps trimmed names trimmed, the
  evaluator raises \<open>ValueError\<close> when a normalised column name that is a base name with
  both companions has more digits than \<open>int()\<close> accepts. Otherwise detection on the
  columns of the document does not fail, and the evaluator gives an error if and only
  if no milestone set is detected, that is, no normalised column name is a base name
  with both companions; the error is the \<open>RuntimeError\<close> of the schema. When a set is
  detected the evaluator returns a list of results; for a document without rows the
  list is empty, and the summary of the empty list is the celebratory message.
\<close>

theorem evaluator_error_iff_no_sets:
  "lower_keeps_trimmed L \<longrightarrow>
     ((\<exists>k\<in>set (map fst (norm_names L sh)).
         has_companions L (norm_names L sh) k \<and> exceeds_limit L (tl k)) \<longrightarrow>
        find_past_due_milestones L w sh = Inl ValueError) \<and>
     (\<not> (\<exists>k\<in>set (map fst (norm_names L sh)).
         has_companions L (norm_names L sh) k \<and> exceeds_limit L (tl k)) \<longrightarrow>
        (\<exists>sets. milestone_sets_of L sh = Inr sets \<and>
           (sets = [] \<longleftrightarrow>
              (\<forall>k\<in>set (map fst (norm_names L sh)). \<not> has_companions L (norm_names L sh) k)) \<and>
           (isl (find_past_due_milestones L w sh) \<longleftrightarrow> sets = []) \<and>
           (sets = [] \<longrightarrow>
              find_past_due_milestones L w sh =
                Inl (RuntimeError (ascii
                  ''No milestone columns found (expected M1 / M1 date / M1 Status pattern).''))) \<and>
           (sets \<noteq> [] \<longrightarrow> (\<exists>results. find_past_due_milestones L w sh = Inr results)) \<and>
           (sets \<noteq> [] \<and> get_list (rows sh) = [] \<longrightarrow>
              find_past_due_milestones L w sh = Inr [] \<and> format_summary [] = celebratory)))"
proof (intro impI conjI)
  assume lk: "lower_keeps_trimmed L"
    and ex: "\<exists>k\<in>set (map fst (norm_names L sh)).
         has_companions L (norm_names L sh) k \<and> exceeds_limit L (tl k)"
  have "milestone_sets_of L sh = Inl ValueError"
    unfolding milestone_sets_of_eq [OF lk] using ex by simp
  then show "find_past_due_milestones L w sh = Inl ValueError"
    by (simp add: find_unfold)
next
  assume lk: "lower_keeps_trimmed L"
    and nex: "\<not> (\<exists>k\<in>set (map fst (norm_names L sh)).
         has_companions L (norm_names L sh) k \<and> exceeds_limit L (tl k))"
  let ?d = "norm_names L sh"
  let ?sets = "sort_key (label_number L)
                 (map (set_for ?d) (filter (has_companions L ?d) (map fst ?d)))"
  have s: "milestone_sets_of L sh = Inr ?sets"
    unfolding milestone_sets_of_eq [OF lk] using nex by simp
  have 1: "?sets = [] \<longleftrightarrow> (\<forall>k\<in>set (map fst ?d). \<not> has_companions L ?d k)"
    unfolding sort_key_Nil_iff by (simp add: filter_empty_conv)
  have 2: "isl (find_past_due_milestones L w sh) \<longleftrightarrow> ?sets = []"
    unfolding find_error_iff s by simp
  have 3: "find_past_due_milestones L w sh =
          Inl (RuntimeError (ascii
            ''No milestone columns found (expected M1 / M1 date / M1 Status pattern).''))"
    if "?sets = []"
    unfolding find_unfold s using that by simp
  have 4: "\<exists>results. find_past_due_milestones L w sh = Inr results" if "?sets \<noteq> []"
    unfolding find_unfold s using that by (simp add: row_results_eq)
  have 5: "find_past_due_milestones L w sh = Inr [] \<and> format_summary [] = celebratory"
    if "?sets \<noteq> [] \<and> get_list (rows sh) = []"
    unfolding find_unfold s using that by (simp add: sort_desc_def format_summary_def)
  show "\<exists>sets. milestone_sets_of L sh = Inr sets \<and>
           (sets = [] \<longleftrightarrow>
              (\<forall>k\<in>set (map fst (norm_names L sh)). \<not> has_companions L (norm_names L sh) k)) \<and>
           (isl (find_past_due_milestones L w sh) \<longleftrightarrow> sets = []) \<and>
           (sets = [] \<longrightarrow>
              find_past_due_milestones L w sh =
                Inl (RuntimeError (ascii
                  ''No milestone columns found (expected M1 / M1 date / M1 Status pattern).''))) \<and>
           (sets \<noteq> [] \<longrightarrow> (\<exists>results. find_past_due_milestones L w sh = Inr results)) \<and>
           (sets \<noteq> [] \<and> get_list (rows sh) = [] \<longrightarrow>
              find_past_due_milestones L w sh = Inr [] \<and> format_summary [] = celebratory)"
    using s 1 2 3 4 5 by blast
qed

theorem evaluator_error_iff_no_sets_witness:
  "lower_keeps_trimmed example_lib \<and>
   list_all (\<lambda>k. \<not> (has_companions example_lib (norm_names example_lib alpha_sheet) k \<and>
                      exceeds_limit example_lib (tl k)))
     (map fst (norm_names example_lib alpha_sheet)) \<and>
   milestone_sets_of example_lib (alpha_sheet\<lparr>rows := None\<rparr>) = Inr [m1_set] \<and>
   get_list (rows (alpha_sheet\<lparr>rows := None\<rparr>)) = [] \<and>
   find_past_due_milestones example_lib (clock_at jan_10) (alpha_sheet\<lparr>rows := None\<rparr>) =
     Inr [] \<and>
   format_summary [] = celebratory \<and>
   milestone_sets_of example_lib (alpha_sheet\<lparr>columns := Some (take 3 alpha_columns)\<rparr>) =
     Inr [] \<and>
   find_past_due_milestones example_lib (clock_at jan_10)
     (alpha_sheet\<lparr>columns := Some (take 3 alpha_columns)\<rparr>) =
     Inl (RuntimeError (ascii
       ''No milestone columns found (expected M1 / M1 date / M1 Status pattern).''))"
proof -
  let ?a = "alpha_sheet\<lparr>rows := None\<rparr>"
  let ?b = "alpha_sheet\<lparr>columns := Some (take 3 alpha_columns)\<rparr>"
  have lk: "lower_keeps_trimmed example_lib" by (rule example_lib_lower_keeps_trimmed)
  have n0: "list_all (\<lambda>k. \<not> (has_companions example_lib (norm_names example_lib alpha_sheet) k \<and>
                      exceeds_limit example_lib (tl k)))
     (map fst (norm_names example_lib alpha_sheet))"
    by code_simp
  have na: "norm_names example_lib ?a = norm_names example_lib alpha_sheet"
    by (simp add: norm_names_def)
  have n1: "\<not> (\<exists>k\<in>set (map fst (norm_names example_lib ?a)).
      has_companions example_lib (norm_names example_lib ?a) k \<and>
      exceeds_limit example_lib (tl k))"
    unfolding na using n0 by (simp only: list_all_iff) blast
  have n2': "list_all (\<lambda>k. \<not> (has_companions example_lib (norm_names example_lib ?b) k \<and>
                      exceeds_limit example_lib (tl k)))
     (map fst (norm_names example_lib ?b))"
    by code_simp
  have n2: "\<not> (\<exists>k\<in>set (map fst (norm_names example_lib ?b)).
      has_companions example_lib (norm_names example_lib ?b) k \<and>
      exceeds_limit example_lib (tl k))"
    using n2' by (simp only: list_all_iff) blast
  have a: "milestone_sets_of example_lib ?a = Inr [m1_set]" by code_simp
  have b: "get_list (rows ?a) = []" by code_simp
  have c: "milestone_sets_of example_lib ?b = Inr []" by code_simp
  obtain sets where s: "milestone_sets_of example_lib ?a = Inr sets"
    and r: "sets \<noteq> [] \<and> get_list (rows ?a) = [] \<longrightarrow>
        find_past_due_milestones example_lib (clock_at jan_10) ?a = Inr [] \<and>
        format_summary [] = celebratory"
    using evaluator_error_iff_no_sets [of example_lib ?a "clock_at jan_10"] lk n1
    by blast
  have "sets = [m1_set]" using a s by simp
  then have r1: "find_past_due_milestones example_lib (clock_at jan_10) ?a = Inr [] \<and>
        format_summary [] = celebratory"
    using r b by simp
  obtain sets' where s': "milestone_sets_of example_lib ?b = Inr sets'"
    and e: "sets' = [] \<longrightarrow>
        find_past_due_milestones example_lib (clock_at jan_10) ?b =
          Inl (RuntimeError (ascii
            ''No milestone columns found (expected M1 / M1 date / M1 Status pattern).''))"
    using evaluator_error_iff_no_sets [of example_lib ?b "clock_at jan_10"] lk n2
    by blast
  have "sets' = []" using c s' by simp
  then have r2: "find_past_due_milestones example_lib (clock_at jan_10) ?b =
          Inl (RuntimeError (ascii
            ''No milestone columns found (expected M1 / M1 date / M1 Status pattern).''))"
    using e by simp
  show ?thesis using lk n0 a b c r1 r2 by blast
qed

end
